theory Spec2Isabelle
  imports Main "HOL-Library.Sublist" "HOL-Library.Monad_Syntax"
begin

section \<open>JavaScript strings\<close>

text \<open>
  A JavaScript string is a sequence of UTF-16 code units, and \<open>length\<close>, \<open>indexOf\<close>,
  \<open>substring\<close> and the other string methods count and compare code units. A code unit is
  kept here as its two octets, high octet first: \<open>(CHR 0x00, CHR ''a'')\<close> is the letter a,
  \<open>(CHR 0x26, CHR 0xA1)\<close> is U+26A1.
\<close>

type_synonym code_unit = "char \<times> char"

type_synonym jsstring = "code_unit list"

definition ascii :: "char \<Rightarrow> code_unit" where
  "ascii c = (CHR 0x00, c)"

definition js :: "string \<Rightarrow> jsstring" where
  "js s = map ascii s"

definition SPACE :: code_unit where
  "SPACE = ascii CHR '' ''"

definition BR :: jsstring where
  "BR = js ''<br>''"

text \<open>\<open>s.startsWith(p)\<close>.\<close>

definition startsWith :: "jsstring \<Rightarrow> jsstring \<Rightarrow> bool" where
  "startsWith s p = prefix p s"

text \<open>\<open>s.indexOf(pat)\<close>: the first index at which \<open>pat\<close> occurs, \<open>-1\<close> when it does not.\<close>

fun indexOf :: "jsstring \<Rightarrow> jsstring \<Rightarrow> int" where
  "indexOf [] pat = (if pat = [] then 0 else -1)"
| "indexOf (c # cs) pat =
     (if startsWith (c # cs) pat then 0
      else (let r = indexOf cs pat in if r = -1 then -1 else r + 1))"

text \<open>\<open>s.includes(pat)\<close>.\<close>

definition includes_js :: "jsstring \<Rightarrow> jsstring \<Rightarrow> bool" where
  "includes_js s pat = (indexOf s pat \<noteq> -1)"

text \<open>
  \<open>s.substring(a, b)\<close>: both indices are clamped to \<open>[0, length]\<close> and swapped when
  \<open>a > b\<close>; \<open>s.substring(a)\<close> runs to the end of the string.
\<close>

definition substring :: "jsstring \<Rightarrow> int \<Rightarrow> int \<Rightarrow> jsstring" where
  "substring s a b =
     (let n = int (length s);
          a' = min (max a 0) n;
          b' = min (max b 0) n;
          lo = min a' b';
          hi = max a' b'
      in take (nat (hi - lo)) (drop (nat lo) s))"

definition substringFrom :: "jsstring \<Rightarrow> int \<Rightarrow> jsstring" where
  "substringFrom s a = substring s a (int (length s))"

text \<open>
  \<open>s.lastIndexOf(pat, fromIndex)\<close>: the greatest index \<open>k\<close> at most the clamped
  \<open>fromIndex\<close> at which \<open>pat\<close> occurs, searching backwards; \<open>-1\<close> when there is none.
\<close>

fun lastIndexBelow :: "jsstring \<Rightarrow> jsstring \<Rightarrow> nat \<Rightarrow> int" where
  "lastIndexBelow s pat 0 = (if startsWith s pat then 0 else -1)"
| "lastIndexBelow s pat (Suc k) =
     (if startsWith (drop (Suc k) s) pat then int (Suc k) else lastIndexBelow s pat k)"

definition lastIndexOf :: "jsstring \<Rightarrow> jsstring \<Rightarrow> int \<Rightarrow> int" where
  "lastIndexOf s pat fromIndex =
     lastIndexBelow s pat (nat (min (max fromIndex 0) (int (length s))))"

text \<open>\<open>xs.join(sep)\<close> on an array of strings.\<close>

fun join :: "jsstring \<Rightarrow> jsstring list \<Rightarrow> jsstring" where
  "join sep [] = []"
| "join sep [x] = x"
| "join sep (x # y # ys) = x @ sep @ join sep (y # ys)"

text \<open>
  \<open>s.split(sep)\<close> for a string separator: the pieces between the successive occurrences
  of \<open>sep\<close>, found from the left; an empty separator splits into single code units.
\<close>

function split :: "jsstring \<Rightarrow> jsstring \<Rightarrow> jsstring list" where
  "split s sep =
     (if sep = [] then map (\<lambda>c. [c]) s
      else (let i = indexOf s sep
            in if i = -1 then [s]
               else take (nat i) s # split (drop (nat i + length sep) s) sep))"
  by pat_completeness auto
termination
proof (relation "measure (\<lambda>(s, sep). length s)")
  show "wf (measure (\<lambda>(s, sep). length s))" by simp
next
  fix s sep :: jsstring and i :: int
  assume sep: "sep \<noteq> []" and i: "i = indexOf s sep" and found: "i \<noteq> - 1"
  have occ: "indexOf t sep \<noteq> - 1 \<Longrightarrow> t \<noteq> []" for t
    using sep by (cases t) auto
  from i found have "s \<noteq> []" using occ by blast
  with sep show "((drop (nat i + length sep) s, sep), (s, sep)) \<in> measure (\<lambda>(s, sep). length s)"
    by simp
qed

text \<open>
  \<open>s.trim()\<close> removes the white space and line terminators of ECMAScript from both ends:
  U+0009 to U+000D, U+0020, U+00A0, U+1680, U+2000 to U+200A, U+2028, U+2029, U+202F,
  U+205F, U+3000 and U+FEFF.
\<close>

definition WHITESPACE :: "code_unit list" where
  "WHITESPACE =
     [(CHR 0x00, CHR 0x09), (CHR 0x00, CHR 0x0A), (CHR 0x00, CHR 0x0B), (CHR 0x00, CHR 0x0C),
      (CHR 0x00, CHR 0x0D), (CHR 0x00, CHR 0x20), (CHR 0x00, CHR 0xA0), (CHR 0x16, CHR 0x80),
      (CHR 0x20, CHR 0x00), (CHR 0x20, CHR 0x01), (CHR 0x20, CHR 0x02), (CHR 0x20, CHR 0x03),
      (CHR 0x20, CHR 0x04), (CHR 0x20, CHR 0x05), (CHR 0x20, CHR 0x06), (CHR 0x20, CHR 0x07),
      (CHR 0x20, CHR 0x08), (CHR 0x20, CHR 0x09), (CHR 0x20, CHR 0x0A), (CHR 0x20, CHR 0x28),
      (CHR 0x20, CHR 0x29), (CHR 0x20, CHR 0x2F), (CHR 0x20, CHR 0x5F), (CHR 0x30, CHR 0x00),
      (CHR 0xFE, CHR 0xFF)]"

definition isWhiteSpace :: "code_unit \<Rightarrow> bool" where
  "isWhiteSpace c = (c \<in> set WHITESPACE)"

definition trim :: "jsstring \<Rightarrow> jsstring" where
  "trim s = rev (dropWhile isWhiteSpace (rev (dropWhile isWhiteSpace s)))"

text \<open>\<open>s.slice(1)\<close>.\<close>

definition slice1 :: "jsstring \<Rightarrow> jsstring" where
  "slice1 s = drop 1 s"

text \<open>
  \<open>s.replace(pat, rep)\<close> for a string pattern: the first occurrence of \<open>pat\<close> is replaced,
  the string is unchanged when there is none.
\<close>

definition replaceFirst :: "jsstring \<Rightarrow> jsstring \<Rightarrow> jsstring \<Rightarrow> jsstring" where
  "replaceFirst s pat rep =
     (let i = indexOf s pat
      in if i = -1 then s else take (nat i) s @ rep @ drop (nat i + length pat) s)"

section \<open>Text wrapping\<close>

text \<open>
  \<open>wrapText(text, maxLength)\<close> of the documentation generator, for a width that is a
  natural number (the generator passes 25 and 50). The recursion of the source does not
  end for every width (at width 0 a text that does not start with a space is passed on
  unchanged), so the result is an option: \<open>None\<close> is a call that never returns.
\<close>

partial_function (option) wrapText :: "jsstring \<Rightarrow> nat \<Rightarrow> jsstring option" where
  "wrapText text maxLength =
     (if length text \<le> maxLength then Some text
      else (let lastSpaceIndex = lastIndexOf text [SPACE] (int maxLength - 1)
            in if lastSpaceIndex = -1 then
                 do {
                   rest \<leftarrow> wrapText (substringFrom text (int maxLength)) maxLength;
                   Some (substring text 0 (int maxLength) @ BR @ rest)
                 }
               else
                 do {
                   rest \<leftarrow> wrapText (substringFrom text (lastSpaceIndex + 1)) maxLength;
                   Some (substring text 0 lastSpaceIndex @ BR @ rest)
                 }))"

declare wrapText.simps [code]

text \<open>
  The reading of a wrapped text as segments: \<open>weave segs seps\<close> puts the separator
  \<open>seps ! i\<close> after the segment \<open>segs ! i\<close>, and \<open>breakAfter n seg sep\<close> says what a
  break of \<open>wrapText\<close> at width \<open>n\<close> stands for: a single space after a segment shorter
  than \<open>n\<close> (a soft break), or nothing after a space-free segment of exactly \<open>n\<close> code
  units (a hard split).
\<close>

fun weave :: "jsstring list \<Rightarrow> jsstring list \<Rightarrow> jsstring" where
  "weave [] seps = []"
| "weave (x # xs) [] = x @ concat xs"
| "weave (x # xs) (p # ps) = x @ p @ weave xs ps"

definition breakAfter :: "nat \<Rightarrow> jsstring \<Rightarrow> jsstring \<Rightarrow> bool" where
  "breakAfter n seg sep =
     ((sep = [SPACE] \<and> length seg < n) \<or> (sep = [] \<and> length seg = n \<and> SPACE \<notin> set seg))"

text \<open>Removing every break marker from a wrapped text.\<close>

definition removeBreaks :: "jsstring \<Rightarrow> jsstring" where
  "removeBreaks s = concat (split s BR)"

section \<open>The collector (workflow-scanner.ts)\<close>

subsection \<open>Description of a workflow file\<close>

definition LF :: code_unit where
  "LF = ascii (CHR 0x0A)"

definition HASH :: jsstring where
  "HASH = js ''#''"

definition NO_DESCRIPTION :: jsstring where
  "NO_DESCRIPTION = js ''No description provided.''"

text \<open>
  The loop of \<open>getWorkflowDescription\<close> over the lines: \<open>break\<close> and the end of the loop
  both lead to the final \<open>return\<close> of the sentinel.
\<close>

fun scanLines :: "jsstring list \<Rightarrow> jsstring" where
  "scanLines [] = NO_DESCRIPTION"
| "scanLines (line # rest) =
     (let trimmed = trim line
      in if trimmed \<noteq> [] \<and> \<not> startsWith trimmed HASH then NO_DESCRIPTION
         else if startsWith trimmed HASH then
           (let comment = trim (slice1 trimmed)
            in if comment \<noteq> [] then comment else scanLines rest)
         else scanLines rest)"

definition getWorkflowDescription :: "jsstring \<Rightarrow> jsstring" where
  "getWorkflowDescription rawWorkflow = scanLines (split rawWorkflow [LF])"

text \<open>
  The rule of the specification, in its words: a line is blank when nothing is left of it
  after stripping, a comment line when its stripped text starts with the comment sign, and
  its body is what follows the sign, stripped. The description is the body of the first
  comment line with a non-empty body among the lines before the first line that is
  neither blank nor a comment, and the sentinel when there is no such line.
\<close>

definition isBlankLine :: "jsstring \<Rightarrow> bool" where
  "isBlankLine line = (trim line = [])"

definition isCommentLine :: "jsstring \<Rightarrow> bool" where
  "isCommentLine line = startsWith (trim line) HASH"

definition commentBody :: "jsstring \<Rightarrow> jsstring" where
  "commentBody line = trim (drop 1 (trim line))"

definition specifiedDescription :: "jsstring \<Rightarrow> jsstring" where
  "specifiedDescription raw =
     (case filter (\<lambda>l. isCommentLine l \<and> commentBody l \<noteq> [])
             (takeWhile (\<lambda>l. isBlankLine l \<or> isCommentLine l) (split raw [LF])) of
        [] \<Rightarrow> NO_DESCRIPTION
      | l # _ \<Rightarrow> commentBody l)"

subsection \<open>Parsed documents and the values read from them\<close>

text \<open>
  The value \<open>parse(content)\<close> of the YAML library returns: null, a boolean, a number, a
  string, an array, or an object whose keys are listed in the order of \<open>Object.keys\<close>.
  The collector reads a number only for its truth value, so numbers are kept as
  integers. A value that may be \<open>undefined\<close> is a \<open>yaml option\<close>, \<open>None\<close> being
  \<open>undefined\<close>.
\<close>

datatype yaml =
    YNull
  | YBool bool
  | YNum int
  | YStr jsstring
  | YSeq "yaml list"
  | YMap "(jsstring \<times> yaml) list"

datatype js_error = ReadError | YAMLParseError | TypeError

text \<open>
  \<open>v.key\<close> for the property names the program reads (\<open>name\<close>, \<open>on\<close>, \<open>workflow_call\<close>,
  \<open>inputs\<close>, \<open>secrets\<close>, \<open>outputs\<close>), none of which a string, a number, a boolean or an
  array has: reading a property of \<open>null\<close> or \<open>undefined\<close> throws a TypeError.
\<close>

fun getProp :: "yaml option \<Rightarrow> jsstring \<Rightarrow> js_error + yaml option" where
  "getProp None key = Inl TypeError"
| "getProp (Some YNull) key = Inl TypeError"
| "getProp (Some (YMap kvs)) key = Inr (map_of kvs key)"
| "getProp (Some v) key = Inr None"

text \<open>\<open>v?.key\<close>: \<open>undefined\<close> when \<open>v\<close> is \<open>null\<close> or \<open>undefined\<close>.\<close>

fun optProp :: "yaml option \<Rightarrow> jsstring \<Rightarrow> yaml option" where
  "optProp None key = None"
| "optProp (Some YNull) key = None"
| "optProp (Some (YMap kvs)) key = map_of kvs key"
| "optProp (Some v) key = None"

text \<open>The truth value of a value in a condition.\<close>

fun truthy :: "yaml option \<Rightarrow> bool" where
  "truthy None = False"
| "truthy (Some YNull) = False"
| "truthy (Some (YBool b)) = b"
| "truthy (Some (YNum n)) = (n \<noteq> 0)"
| "truthy (Some (YStr s)) = (s \<noteq> [])"
| "truthy (Some (YSeq xs)) = True"
| "truthy (Some (YMap kvs)) = True"

text \<open>
  \<open>'workflow_call' in v\<close>: the \<open>in\<close> operator throws a TypeError on anything but an
  object; an array is an object without that key.
\<close>

fun hasKey :: "jsstring \<Rightarrow> yaml option \<Rightarrow> js_error + bool" where
  "hasKey key (Some (YMap kvs)) = Inr (key \<in> set (map fst kvs))"
| "hasKey key (Some (YSeq xs)) = Inr False"
| "hasKey key v = Inl TypeError"

text \<open>
  \<open>title.replace(/Reusable[ .]/i, '')\<close>: the first place where the letters of
  \<open>Reusable\<close>, each in either case, are followed by a space or a full stop, is removed.
  (Without the \<open>u\<close> flag no code unit above 127 matches an ASCII letter.)
\<close>

definition REUSABLE :: "(code_unit \<times> code_unit) list" where
  "REUSABLE = zip (js ''REUSABLE'') (js ''reusable'')"

definition DOT :: code_unit where
  "DOT = ascii CHR ''.''"

definition matchesReusable :: "jsstring \<Rightarrow> bool" where
  "matchesReusable s =
     (length REUSABLE < length s
      \<and> list_all2 (\<lambda>c (u, l). c = u \<or> c = l) (take (length REUSABLE) s) REUSABLE
      \<and> (s ! length REUSABLE = SPACE \<or> s ! length REUSABLE = DOT))"

fun replaceReusable :: "jsstring \<Rightarrow> jsstring" where
  "replaceReusable [] = []"
| "replaceReusable (c # cs) =
     (if matchesReusable (c # cs) then drop (Suc (length REUSABLE)) (c # cs)
      else c # replaceReusable cs)"

subsection \<open>Paths\<close>

text \<open>
  \<open>path.basename\<close> and \<open>path.extname\<close> of Node.js for POSIX paths, as documented: trailing
  separators are ignored; the extension runs from the last full stop of the last
  component to its end, and is empty when there is no full stop, when the only full stop
  is the first character of the component, or when the component is \<open>..\<close>; a suffix given
  to \<open>basename\<close> is removed from the component when it ends it and is not the whole of it
  (the scanner passes the extension of the same path, which ends the component or is
  empty).
\<close>

definition SLASH :: code_unit where
  "SLASH = ascii CHR ''/''"

definition lastComponent :: "jsstring \<Rightarrow> jsstring" where
  "lastComponent p =
     rev (takeWhile (\<lambda>c. c \<noteq> SLASH) (dropWhile (\<lambda>c. c = SLASH) (rev p)))"

definition basename :: "jsstring \<Rightarrow> jsstring" where
  "basename p = lastComponent p"

definition extname :: "jsstring \<Rightarrow> jsstring" where
  "extname p =
     (let comp = lastComponent p;
          tail = rev (takeWhile (\<lambda>c. c \<noteq> DOT) (rev comp))
      in if DOT \<notin> set comp then []
         else if Suc (length tail) = length comp then []
         else if comp = [DOT, DOT] then []
         else DOT # tail)"

definition basenameSuffix :: "jsstring \<Rightarrow> jsstring \<Rightarrow> jsstring" where
  "basenameSuffix p ext =
     (if ext \<noteq> [] \<and> length ext \<le> length p then
        (if ext = p then []
         else (let comp = lastComponent p
               in if suffix ext comp \<and> ext \<noteq> comp
                  then take (length comp - length ext) comp
                  else comp))
      else lastComponent p)"

text \<open>
  The paths \<open>glob('.github/workflows/*.{yml,yaml}')\<close> yields: the directory, then a file
  name with no separator that does not start with a full stop (the star does not match
  hidden files) and ends with one of the two extensions.
\<close>

definition WORKFLOWS_DIR :: jsstring where
  "WORKFLOWS_DIR = js ''.github/workflows/''"

definition matchesWorkflowGlob :: "jsstring \<Rightarrow> bool" where
  "matchesWorkflowGlob p =
     (startsWith p WORKFLOWS_DIR
      \<and> (let file = drop (length WORKFLOWS_DIR) p
         in file \<noteq> [] \<and> SLASH \<notin> set file \<and> hd file \<noteq> DOT
            \<and> (suffix (js ''.yml'') file \<or> suffix (js ''.yaml'') file)))"

subsection \<open>Scanning the workflow files\<close>

record Workflow =
  name :: jsstring
  description :: jsstring
  filePath :: jsstring
  fileName :: jsstring
  inputs :: "yaml option"
  secrets :: "yaml option"
  outputs :: "yaml option"
  isReusable :: bool

text \<open>
  The body of the \<open>try\<close> block of \<open>scanWorkflows\<close> for one file. \<open>readFile\<close> is the file
  system, a map from paths to contents (reading a path it does not have throws), and
  \<open>parse\<close> is the YAML parser, which returns a value or throws. The fields of the record
  are computed in the order of the source, and the first exception ends the block.
  \<open>workflow.on?.workflow_call?.inputs\<close> and its two siblings are read when the name has
  been read from \<open>workflow\<close>, which is then neither \<open>null\<close> nor \<open>undefined\<close>, so they
  raise nothing. \<open>isReusable\<close> keeps the truth value of
  \<open>workflow.on && 'workflow_call' in workflow.on\<close>.
\<close>

definition workflowName :: "yaml \<Rightarrow> jsstring \<Rightarrow> js_error + jsstring" where
  "workflowName workflow path =
     (case getProp (Some workflow) (js ''name'') of
        Inl e \<Rightarrow> Inl e
      | Inr (Some (YStr title)) \<Rightarrow>
          Inr (if replaceReusable title \<noteq> [] then replaceReusable title
               else basenameSuffix path (extname path))
      | Inr _ \<Rightarrow> Inl TypeError)"

definition workflowCall :: "yaml \<Rightarrow> jsstring \<Rightarrow> yaml option" where
  "workflowCall workflow key =
     optProp (optProp (optProp (Some workflow) (js ''on'')) (js ''workflow_call'')) key"

definition workflowIsReusable :: "yaml \<Rightarrow> js_error + bool" where
  "workflowIsReusable workflow =
     (case getProp (Some workflow) (js ''on'') of
        Inl e \<Rightarrow> Inl e
      | Inr on \<Rightarrow> if truthy on then hasKey (js ''workflow_call'') on else Inr False)"

definition processFile ::
  "(jsstring \<Rightarrow> js_error + yaml) \<Rightarrow> (jsstring \<rightharpoonup> jsstring) \<Rightarrow> jsstring \<Rightarrow> js_error + Workflow" where
  "processFile parse readFile path =
     (case readFile path of
        None \<Rightarrow> Inl ReadError
      | Some content \<Rightarrow>
          (case parse content of
             Inl e \<Rightarrow> Inl e
           | Inr workflow \<Rightarrow>
               (case workflowName workflow path of
                  Inl e \<Rightarrow> Inl e
                | Inr nm \<Rightarrow>
                    (case workflowIsReusable workflow of
                       Inl e \<Rightarrow> Inl e
                     | Inr reusable \<Rightarrow>
                         Inr \<lparr> name = nm,
                               description = getWorkflowDescription content,
                               filePath = path,
                               fileName = basename path,
                               inputs = workflowCall workflow (js ''inputs''),
                               secrets = workflowCall workflow (js ''secrets''),
                               outputs = workflowCall workflow (js ''outputs''),
                               isReusable = reusable \<rparr>))))"

text \<open>
  The loop of \<open>scanWorkflows\<close> over the enumerated paths: a record is appended to
  \<open>workflows\<close>, or the exception is caught and a warning with the path is logged. The
  function returns the records and the log of warnings.
\<close>

fun scanLoop ::
  "(jsstring \<Rightarrow> js_error + yaml) \<Rightarrow> (jsstring \<rightharpoonup> jsstring) \<Rightarrow> jsstring list
     \<Rightarrow> Workflow list \<Rightarrow> (jsstring \<times> js_error) list
     \<Rightarrow> Workflow list \<times> (jsstring \<times> js_error) list" where
  "scanLoop parse readFile [] workflows warnings = (workflows, warnings)"
| "scanLoop parse readFile (path # paths) workflows warnings =
     (case processFile parse readFile path of
        Inr workflowInfo \<Rightarrow> scanLoop parse readFile paths (workflows @ [workflowInfo]) warnings
      | Inl err \<Rightarrow> scanLoop parse readFile paths workflows (warnings @ [(path, err)]))"

definition scanWorkflows ::
  "(jsstring \<Rightarrow> js_error + yaml) \<Rightarrow> (jsstring \<rightharpoonup> jsstring) \<Rightarrow> jsstring list
     \<Rightarrow> Workflow list \<times> (jsstring \<times> js_error) list" where
  "scanWorkflows parse readFile workflowFiles = scanLoop parse readFile workflowFiles [] []"

section \<open>The renderer (doc-generator.ts)\<close>

subsection \<open>Formatting table cells\<close>

text \<open>
  \<open>Object.keys(v)\<close>: the keys of an object, the indices of an array or of a string in
  decimal, nothing for a number or a boolean.
\<close>

fun decimal :: "nat \<Rightarrow> jsstring" where
  "decimal n =
     (if n < 10 then [ascii (char_of (48 + n))]
      else decimal (n div 10) @ [ascii (char_of (48 + n mod 10))])"

fun objectKeys :: "yaml \<Rightarrow> jsstring list" where
  "objectKeys (YMap kvs) = map fst kvs"
| "objectKeys (YSeq xs) = map decimal [0..<length xs]"
| "objectKeys (YStr s) = map decimal [0..<length s]"
| "objectKeys v = []"

definition BACKTICK :: jsstring where
  "BACKTICK = js ''`''"

definition formatStackedWorkflowDetails :: "yaml option \<Rightarrow> jsstring" where
  "formatStackedWorkflowDetails columns =
     (if \<not> truthy columns \<or> length (objectKeys (the columns)) = 0 then js ''*None*''
      else (let keys = objectKeys (the columns)
            in join BR (map (\<lambda>key. BACKTICK @ key @ BACKTICK) keys)))"

subsection \<open>Categories\<close>

record category_info =
  category :: jsstring
  icon :: jsstring

record mapping = category_info +
  prefixes :: "jsstring list"

text \<open>
  The icons are written by their UTF-16 code units: U+2699 U+FE0F, U+1F9EA, U+1F527,
  U+1F680, U+1F512, U+1F6E0 U+FE0F, U+1F4DA, U+1F514, U+FFFD (the replacement character
  that stands in the source for the icon of Monitoring) and U+1F50D.
\<close>

definition CATEGORY_MAPPINGS :: "mapping list" where
  "CATEGORY_MAPPINGS =
     [\<lparr>category = js ''Internal'', icon = [(CHR 0x26, CHR 0x99), (CHR 0xFE, CHR 0x0F)],
        prefixes = [js ''_'']\<rparr>,
      \<lparr>category = js ''Testing'', icon = [(CHR 0xD8, CHR 0x3E), (CHR 0xDD, CHR 0xEA)],
        prefixes = [js ''test-'']\<rparr>,
      \<lparr>category = js ''Code Quality'', icon = [(CHR 0xD8, CHR 0x3D), (CHR 0xDD, CHR 0x27)],
        prefixes = [js ''quality-'']\<rparr>,
      \<lparr>category = js ''Deployment'', icon = [(CHR 0xD8, CHR 0x3D), (CHR 0xDE, CHR 0x80)],
        prefixes = [js ''deploy-'', js ''build-'', js ''publish-'', js ''release-'']\<rparr>,
      \<lparr>category = js ''Security'', icon = [(CHR 0xD8, CHR 0x3D), (CHR 0xDD, CHR 0x12)],
        prefixes = [js ''security-'', js ''scan-'', js ''audit-'']\<rparr>,
      \<lparr>category = js ''Utilities'',
        icon = [(CHR 0xD8, CHR 0x3D), (CHR 0xDE, CHR 0xE0), (CHR 0xFE, CHR 0x0F)],
        prefixes = [js ''util-'', js ''setup-'', js ''tool-'', js ''maintenance-'']\<rparr>,
      \<lparr>category = js ''Documentation'', icon = [(CHR 0xD8, CHR 0x3D), (CHR 0xDC, CHR 0xDA)],
        prefixes = [js ''doc-'', js ''docs-'', js ''generate-'']\<rparr>,
      \<lparr>category = js ''Notifications'', icon = [(CHR 0xD8, CHR 0x3D), (CHR 0xDD, CHR 0x14)],
        prefixes = [js ''notify-'', js ''alert-'']\<rparr>,
      \<lparr>category = js ''Monitoring'', icon = [(CHR 0xFF, CHR 0xFD)],
        prefixes = [js ''monitor-'', js ''check-'', js ''health-'']\<rparr>]"

definition MISCELLANEOUS :: category_info where
  "MISCELLANEOUS =
     \<lparr>category = js ''Miscellaneous'', icon = [(CHR 0xD8, CHR 0x3D), (CHR 0xDD, CHR 0x0D)]\<rparr>"

text \<open>
  The loop of \<open>getCategoryByFilename\<close> over the mappings: the first mapping one of whose
  prefixes starts the file name is returned, and the default after the loop.
\<close>

fun firstMapping :: "mapping list \<Rightarrow> jsstring \<Rightarrow> category_info" where
  "firstMapping [] filename = MISCELLANEOUS"
| "firstMapping (m # ms) filename =
     (if list_ex (\<lambda>prefix. startsWith filename prefix) (prefixes m)
      then \<lparr>category = category m, icon = icon m\<rparr>
      else firstMapping ms filename)"

definition getCategoryByFilename :: "jsstring \<Rightarrow> category_info" where
  "getCategoryByFilename filename = firstMapping CATEGORY_MAPPINGS filename"

text \<open>
  \<open>categorizeWorkflow\<close>: the file name is what follows the last slash or backslash of
  \<open>filePath\<close> (the last element of the split), with the first \<open>.yml\<close> and then the first
  \<open>.yaml\<close> removed.
\<close>

definition BACKSLASH :: code_unit where
  "BACKSLASH = ascii (CHR 0x5C)"

definition lastPathPiece :: "jsstring \<Rightarrow> jsstring" where
  "lastPathPiece p = rev (takeWhile (\<lambda>c. c \<noteq> SLASH \<and> c \<noteq> BACKSLASH) (rev p))"

definition categorizeWorkflow :: "Workflow \<Rightarrow> category_info" where
  "categorizeWorkflow workflow =
     (let filename =
            replaceFirst (replaceFirst (lastPathPiece (filePath workflow)) (js ''.yml'') [])
              (js ''.yaml'') []
      in getCategoryByFilename filename)"

subsection \<open>The folder structure\<close>

text \<open>
  \<open>xs.sort(cmp)\<close>: the sort of an array is stable, and is computed here by insertion; the
  comparison \<open>a.localeCompare(b)\<close> depends on the locale of the host and is a parameter.
\<close>

fun insertBy :: "('a \<Rightarrow> 'a \<Rightarrow> int) \<Rightarrow> 'a \<Rightarrow> 'a list \<Rightarrow> 'a list" where
  "insertBy cmp x [] = [x]"
| "insertBy cmp x (y # ys) = (if cmp x y < 0 then x # y # ys else y # insertBy cmp x ys)"

definition sortBy :: "('a \<Rightarrow> 'a \<Rightarrow> int) \<Rightarrow> 'a list \<Rightarrow> 'a list" where
  "sortBy cmp xs = foldl (\<lambda>sorted x. insertBy cmp x sorted) [] xs"

text \<open>The box-drawing connectors: U+251C U+2500 U+2500, U+2514 U+2500 U+2500, U+2502.\<close>

definition TEE :: jsstring where
  "TEE = [(CHR 0x25, CHR 0x1C), (CHR 0x25, CHR 0x00), (CHR 0x25, CHR 0x00)]"

definition ELBOW :: jsstring where
  "ELBOW = [(CHR 0x25, CHR 0x14), (CHR 0x25, CHR 0x00), (CHR 0x25, CHR 0x00)]"

definition PIPE :: jsstring where
  "PIPE = [(CHR 0x25, CHR 0x02)]"

text \<open>
  What one turn of the loop over the sorted workflow files appends to \<open>structure\<close>, for
  the file at index \<open>i\<close> among the \<open>n\<close> sorted files: the header of its category when the
  category changes, then the line of the file.
\<close>

definition workflowEntry ::
  "(jsstring \<rightharpoonup> jsstring) \<Rightarrow> nat \<Rightarrow> nat \<Rightarrow> nat \<Rightarrow> jsstring \<Rightarrow> jsstring \<Rightarrow> jsstring
     \<Rightarrow> jsstring" where
  "workflowEntry readFile n actions i path baseName lastCategory =
     (let cat = getCategoryByFilename baseName;
          hasMoreFiles = (i < n - 1 \<or> actions > 0);
          header =
            (if category cat \<noteq> lastCategory then
               (if i > 0 then PIPE @ js ''   '' @ PIPE @ js ''\<newline>'' else [])
               @ PIPE @ js ''   '' @ (if hasMoreFiles then TEE else ELBOW) @ js '' # ''
               @ icon cat @ js '' '' @ category cat @ js ''\<newline>''
             else []);
          isLastFile = (i = n - 1 \<and> actions = 0);
          connector = (if isLastFile then ELBOW else TEE);
          kind = (case readFile path of
                    None \<Rightarrow> []
                  | Some content \<Rightarrow>
                      if includes_js content (js ''workflow_call'') then js '' (reusable)''
                      else js '' (internal)'')
      in header @ PIPE @ js ''   '' @ connector @ js '' '' @ baseName @ kind @ js ''\<newline>'')"

text \<open>The loop itself: \<open>lastCategory\<close> and \<open>structure\<close> are the variables it updates.\<close>

fun workflowLines ::
  "(jsstring \<rightharpoonup> jsstring) \<Rightarrow> nat \<Rightarrow> nat \<Rightarrow> nat \<Rightarrow> (jsstring \<times> jsstring) list
     \<Rightarrow> jsstring \<Rightarrow> jsstring \<Rightarrow> jsstring" where
  "workflowLines readFile n actions i [] lastCategory structure = structure"
| "workflowLines readFile n actions i (entry # rest) lastCategory structure =
     workflowLines readFile n actions (Suc i) rest
       (category (getCategoryByFilename (snd entry)))
       (structure @ workflowEntry readFile n actions i (fst entry) (snd entry) lastCategory)"

text \<open>The two lines of an action directory, and the loop over them; an empty path is skipped.\<close>

definition actionEntry :: "nat \<Rightarrow> nat \<Rightarrow> jsstring \<Rightarrow> jsstring" where
  "actionEntry n i actionDir =
     (let actionName = basename actionDir;
          isLast = (i = n - 1);
          connector = (if isLast then ELBOW else TEE)
      in js ''    '' @ connector @ js '' '' @ actionName @ js ''/\<newline>''
         @ js ''    '' @ (if isLast then js '' '' else PIPE) @ js ''   '' @ ELBOW
         @ js '' action.yml\<newline>'')"

fun actionLines :: "nat \<Rightarrow> nat \<Rightarrow> jsstring list \<Rightarrow> jsstring \<Rightarrow> jsstring" where
  "actionLines n i [] structure = structure"
| "actionLines n i (actionDir # rest) structure =
     (if actionDir = [] then actionLines n (Suc i) rest structure
      else actionLines n (Suc i) rest (structure @ actionEntry n i actionDir))"

definition generateFolderStructure ::
  "(jsstring \<Rightarrow> jsstring \<Rightarrow> int) \<Rightarrow> jsstring list \<Rightarrow> jsstring list
     \<Rightarrow> (jsstring \<rightharpoonup> jsstring) \<Rightarrow> jsstring" where
  "generateFolderStructure localeCompare workflowFiles actionDirs readFile =
     (let structure0 = js ''```\<newline>.github/\<newline>'';
          structure1 =
            (if length workflowFiles > 0 then
               (let sortedWorkflowFiles =
                      sortBy (\<lambda>a b. localeCompare (snd a) (snd b))
                        (map (\<lambda>path. (path, basename path)) workflowFiles)
                in workflowLines readFile (length sortedWorkflowFiles) (length actionDirs) 0
                     sortedWorkflowFiles []
                     (structure0 @ TEE @ js '' workflows/          # GitHub Actions Workflows\<newline>''))
             else structure0);
          structure2 =
            (if length actionDirs > 0 then
               actionLines (length actionDirs) 0 actionDirs
                 (structure1 @ ELBOW @ js '' actions/            # Custom Composite Actions\<newline>'')
             else structure1)
      in structure2 @ js ''```'')"

subsection \<open>The table of workflows\<close>

text \<open>
  The \<open>Map\<close> from category names to icon and workflows keeps its keys in the order of
  their first insertion: an association list, a workflow being appended to the entry of
  its category or a new entry added at the end.
\<close>

fun addWorkflow ::
  "(jsstring \<times> jsstring \<times> Workflow list) list \<Rightarrow> category_info \<Rightarrow> Workflow
     \<Rightarrow> (jsstring \<times> jsstring \<times> Workflow list) list" where
  "addWorkflow [] cat workflow = [(category cat, icon cat, [workflow])]"
| "addWorkflow ((name', icon', workflows) # entries) cat workflow =
     (if name' = category cat then (name', icon', workflows @ [workflow]) # entries
      else (name', icon', workflows) # addWorkflow entries cat workflow)"

definition groupByCategory :: "Workflow list \<Rightarrow> (jsstring \<times> jsstring \<times> Workflow list) list" where
  "groupByCategory reusableWorkflows =
     foldl (\<lambda>categoriesMap workflow. addWorkflow categoriesMap (categorizeWorkflow workflow) workflow)
       [] reusableWorkflows"

definition AUTO_GENERATED_NOTICE :: jsstring where
  "AUTO_GENERATED_NOTICE =
     js ''<!-- AUTO-GENERATED CONTENT - DO NOT EDIT MANUALLY -->\<newline>''
     @ js ''<!-- This section is automatically updated by the documentation generator -->\<newline>\<newline>''
     @ js ''> '' @ [(CHR 0x26, CHR 0xA1)] @ js '' **Auto-Generated** '' @ [(CHR 0x26, CHR 0xA1)]
     @ js ''\<newline>''
     @ js ''> \<newline>''"

text \<open>One row of the table; \<open>filePath.replace(/\\/g, '/')\<close> turns every backslash into a slash.\<close>

definition workflowRow :: "Workflow \<Rightarrow> jsstring option" where
  "workflowRow workflow =
     do {
       workflowName \<leftarrow> wrapText (name workflow) 25;
       descriptionCell \<leftarrow>
         (if description workflow \<noteq> [] \<and> description workflow \<noteq> NO_DESCRIPTION
          then wrapText (description workflow) 50
          else Some (js ''*No description provided*''));
       Some (let inputCell = formatStackedWorkflowDetails (inputs workflow);
                 outputCell = formatStackedWorkflowDetails (outputs workflow);
                 secretCell = formatStackedWorkflowDetails (secrets workflow);
                 workflowLink = js ''['' @ workflowName @ js ''](./''
                   @ map (\<lambda>c. if c = BACKSLASH then SLASH else c) (filePath workflow) @ js '')''
             in js ''| **'' @ workflowLink @ js ''** | '' @ descriptionCell @ js '' | '' @ inputCell
                @ js '' | '' @ outputCell @ js '' | '' @ secretCell @ js '' |\<newline>'')
     }"

fun workflowRows :: "Workflow list \<Rightarrow> jsstring \<Rightarrow> jsstring option" where
  "workflowRows [] section = Some section"
| "workflowRows (workflow # rest) section =
     do { row \<leftarrow> workflowRow workflow; workflowRows rest (section @ row) }"

definition tableHead :: "jsstring \<Rightarrow> jsstring \<Rightarrow> jsstring" where
  "tableHead icon' category' =
     js ''### '' @ icon' @ js '' '' @ category' @ js ''\<newline>\<newline>''
     @ js ''| Workflow Name | Description | Inputs | Outputs | Secrets |\<newline>''
     @ js ''|:-------------|:------------|:-------|:--------|:--------|\<newline>''"

fun categoryTables ::
  "(jsstring \<times> jsstring \<times> Workflow list) list \<Rightarrow> jsstring \<Rightarrow> jsstring option" where
  "categoryTables [] section = Some section"
| "categoryTables (entry # entries) section =
     do {
       withRows \<leftarrow> workflowRows (snd (snd entry))
         (section @ tableHead (fst (snd entry)) (fst entry));
       categoryTables entries (withRows @ js ''\<newline>'')
     }"

definition renderWorkflowsSection :: "Workflow list \<Rightarrow> jsstring option" where
  "renderWorkflowsSection workflows =
     (let reusableWorkflows = filter isReusable workflows;
          categoriesMap = groupByCategory reusableWorkflows;
          notice = AUTO_GENERATED_NOTICE
            @ js ''> This section is automatically updated whenever workflows are added, modified, or removed.\<newline>''
            @ js ''> The documentation reflects the current state of all reusable workflows in this repository.\<newline>\<newline>''
      in if length categoriesMap = 0 then Some (js ''No reusable workflows found.\<newline>'')
         else categoryTables categoriesMap notice)"

definition renderFolderStructureSection ::
  "(jsstring \<Rightarrow> jsstring \<Rightarrow> int) \<Rightarrow> jsstring list \<Rightarrow> jsstring list
     \<Rightarrow> (jsstring \<rightharpoonup> jsstring) \<Rightarrow> jsstring" where
  "renderFolderStructureSection localeCompare workflowFiles actionDirs readFile =
     AUTO_GENERATED_NOTICE
     @ js ''> This folder structure is automatically scanned and updated to reflect the current repository layout.\<newline>''
     @ js ''> It shows all workflows and actions with their types (reusable/internal).\<newline>\<newline>''
     @ generateFolderStructure localeCompare workflowFiles actionDirs readFile"

subsection \<open>Splicing the sections into the README\<close>

definition BEGIN_AVAILABLE :: jsstring where
  "BEGIN_AVAILABLE = js ''<!-- BEGIN: Available Workflows Section -->''"

definition END_AVAILABLE :: jsstring where
  "END_AVAILABLE = js ''<!-- END: Available Workflows Section -->''"

definition BEGIN_FOLDER :: jsstring where
  "BEGIN_FOLDER = js ''<!-- BEGIN: Workflows Folder Structure Section -->''"

definition END_FOLDER :: jsstring where
  "END_FOLDER = js ''<!-- END: Workflows Folder Structure Section -->''"

text \<open>
  What \<open>generateDocumentation\<close> puts between the kept head and the kept tail of the README:
  both regions with their markers and headings (the icons are U+1F4E6 and U+1F3D7
  U+FE0F), two line feeds after each end marker.
\<close>

definition generatedBlock :: "jsstring \<Rightarrow> jsstring \<Rightarrow> jsstring" where
  "generatedBlock workflowsSection folderStructureSection =
     BEGIN_AVAILABLE @ js ''\<newline>''
     @ js ''## '' @ [(CHR 0xD8, CHR 0x3D), (CHR 0xDC, CHR 0xE6)] @ js '' Available Workflows\<newline>\<newline>''
     @ workflowsSection
     @ END_AVAILABLE @ js ''\<newline>\<newline>''
     @ BEGIN_FOLDER @ js ''\<newline>''
     @ js ''## '' @ [(CHR 0xD8, CHR 0x3C), (CHR 0xDF, CHR 0xD7), (CHR 0xFE, CHR 0x0F)]
     @ js '' Workflows Folder Structure\<newline>\<newline>''
     @ folderStructureSection
     @ js ''\<newline>''
     @ END_FOLDER @ js ''\<newline>\<newline>''"

text \<open>
  The reconstruction of the README in \<open>generateDocumentation\<close>, from the search for the
  delimiter comments to \<open>newContent\<close>. Neither result of \<open>indexOf\<close> is tested.
\<close>

definition splice :: "jsstring \<Rightarrow> jsstring \<Rightarrow> jsstring \<Rightarrow> jsstring" where
  "splice existingContent workflowsSection folderStructureSection =
     (let availableWorkflowsStart = indexOf existingContent BEGIN_AVAILABLE;
          folderStructureEnd = indexOf existingContent END_FOLDER;
          beforeWorkflows = substring existingContent 0 availableWorkflowsStart;
          afterFolderStructureEnd = folderStructureEnd + int (length END_FOLDER);
          afterFolderStructure = substringFrom existingContent afterFolderStructureEnd
      in beforeWorkflows @ generatedBlock workflowsSection folderStructureSection
         @ afterFolderStructure)"

definition README :: jsstring where
  "README = js ''README.md''"

text \<open>
  \<open>generateDocumentation(workflows)\<close>. The file system is a map from paths to contents,
  read by \<open>readFile\<close> and updated by \<open>writeFile\<close>; the two enumerations of \<open>glob\<close> and the
  comparison of the host are parameters. A README that cannot be read counts as empty.
  The result is the file system after the call; \<open>None\<close> would be a call that does not
  return.
\<close>

definition generateDocumentation ::
  "(jsstring \<Rightarrow> jsstring \<Rightarrow> int) \<Rightarrow> jsstring list \<Rightarrow> jsstring list \<Rightarrow> Workflow list
     \<Rightarrow> (jsstring \<rightharpoonup> jsstring) \<Rightarrow> (jsstring \<rightharpoonup> jsstring) option" where
  "generateDocumentation localeCompare workflowFiles actionDirs workflows files =
     do {
       workflowsSection \<leftarrow> renderWorkflowsSection workflows;
       Some (let existingContent = (case files README of None \<Rightarrow> [] | Some content \<Rightarrow> content);
                 folderStructureSection =
                   renderFolderStructureSection localeCompare workflowFiles actionDirs files;
                 newContent = splice existingContent workflowsSection folderStructureSection
             in files(README \<mapsto> newContent))
     }"

text \<open>The README a run of the generator leaves behind.\<close>

definition readmeAfter :: "(jsstring \<rightharpoonup> jsstring) option \<Rightarrow> jsstring option" where
  "readmeAfter result = Option.bind result (\<lambda>files. files README)"

subsection \<open>The earlier classification by keywords\<close>

text \<open>
  An earlier version of the generator classified a workflow by keywords in its name (its
  \<open>categorizeWorkflow\<close>, here \<open>categorizeWorkflowByName\<close>) and knew no prefix rules.
  \<open>s.toLowerCase()\<close> is modelled as far as ASCII keywords can tell:
  the letters A to Z, and the two other code units whose lower case contains an ASCII
  letter, U+212A (Kelvin sign, to k) and U+0130 (to i followed by U+0307).
\<close>

definition lowerUnit :: "code_unit \<Rightarrow> jsstring" where
  "lowerUnit c =
     (if fst c = CHR 0x00 \<and> (65::nat) \<le> of_char (snd c) \<and> of_char (snd c) \<le> (90::nat)
        then [(CHR 0x00, char_of (of_char (snd c) + (32::nat)))]
      else if c = (CHR 0x21, CHR 0x2A) then [ascii CHR ''k'']
      else if c = (CHR 0x01, CHR 0x30) then [ascii CHR ''i'', (CHR 0x03, CHR 0x07)]
      else [c])"

definition toLowerCase :: "jsstring \<Rightarrow> jsstring" where
  "toLowerCase s = concat (map lowerUnit s)"

definition categorizeWorkflowByName :: "Workflow \<Rightarrow> jsstring" where
  "categorizeWorkflowByName workflow =
     (let lowered = toLowerCase (name workflow)
      in if includes_js lowered (js ''test'') \<or> includes_js lowered (js ''unit'')
            \<or> includes_js lowered (js ''integration'') \<or> includes_js lowered (js ''e2e'')
            \<or> includes_js lowered (js ''spec'')
         then js ''Testing''
         else if includes_js lowered (js ''format'') \<or> includes_js lowered (js ''lint'')
            \<or> includes_js lowered (js ''type'') \<or> includes_js lowered (js ''quality'')
            \<or> includes_js lowered (js ''prettier'') \<or> includes_js lowered (js ''eslint'')
         then js ''Code Quality''
         else if includes_js lowered (js ''deploy'') \<or> includes_js lowered (js ''build'')
            \<or> includes_js lowered (js ''publish'') \<or> includes_js lowered (js ''release'')
            \<or> includes_js lowered (js ''dist'')
         then js ''Deployment''
         else if includes_js lowered (js ''security'') \<or> includes_js lowered (js ''scan'')
            \<or> includes_js lowered (js ''audit'') \<or> includes_js lowered (js ''vulnerability'')
            \<or> includes_js lowered (js ''cve'')
         then js ''Security''
         else if includes_js lowered (js ''util'') \<or> includes_js lowered (js ''helper'')
            \<or> includes_js lowered (js ''setup'') \<or> includes_js lowered (js ''config'')
            \<or> includes_js lowered (js ''tool'') \<or> includes_js lowered (js ''assign'')
            \<or> includes_js lowered (js ''label'') \<or> includes_js lowered (js ''stale'')
            \<or> includes_js lowered (js ''cleanup'') \<or> includes_js lowered (js ''maintenance'')
         then js ''Utilities''
         else if includes_js lowered (js ''doc'') \<or> includes_js lowered (js ''readme'')
            \<or> includes_js lowered (js ''changelog'') \<or> includes_js lowered (js ''generate'')
            \<or> includes_js lowered (js ''wiki'')
         then js ''Documentation''
         else if includes_js lowered (js ''notify'') \<or> includes_js lowered (js ''slack'')
            \<or> includes_js lowered (js ''discord'') \<or> includes_js lowered (js ''email'')
            \<or> includes_js lowered (js ''webhook'') \<or> includes_js lowered (js ''alert'')
         then js ''Notifications''
         else if includes_js lowered (js ''monitor'') \<or> includes_js lowered (js ''health'')
            \<or> includes_js lowered (js ''check'') \<or> includes_js lowered (js ''status'')
            \<or> includes_js lowered (js ''ping'') \<or> includes_js lowered (js ''uptime'')
         then js ''Monitoring''
         else js ''Miscellaneous'')"

subsection \<open>The classification as specified\<close>

text \<open>
  The classification in the words of the specification: the prefix rules on the file
  name of the record first, the first rule with a matching prefix winning; with no such
  rule, the keywords in the lower-cased display name; the default category otherwise.
  The categories are the nine of the prefix rules and the default one.
\<close>

definition specifiedCategory :: "Workflow \<Rightarrow> jsstring" where
  "specifiedCategory workflow =
     (case find (\<lambda>m. list_ex (\<lambda>p. startsWith (fileName workflow) p) (prefixes m))
             CATEGORY_MAPPINGS of
        Some m \<Rightarrow> category m
      | None \<Rightarrow> categorizeWorkflowByName workflow)"


section \<open>Sample inputs\<close>

text \<open>
  Contents of workflow files and what the YAML parser returns for them: a titled
  reusable workflow, a reusable workflow without a \<open>name\<close>, one whose title is only the
  prefix that the scanner strips, and a file that is not valid YAML.
\<close>

definition LINT_YML :: jsstring where
  "LINT_YML = js ''name: Reusable Lint Checker\<newline>on:\<newline>  workflow_call:''"

definition UNTITLED_YML :: jsstring where
  "UNTITLED_YML = js ''on:\<newline>  workflow_call:''"

definition PREFIX_YML :: jsstring where
  "PREFIX_YML = js ''name: Reusable.\<newline>on:\<newline>  workflow_call:''"

definition BROKEN_YML :: jsstring where
  "BROKEN_YML = js ''name: [unclosed''"

definition sampleParse :: "jsstring \<Rightarrow> js_error + yaml" where
  "sampleParse content =
     (if content = LINT_YML then
        Inr (YMap [(js ''name'', YStr (js ''Reusable Lint Checker'')),
                   (js ''on'', YMap [(js ''workflow_call'', YNull)])])
      else if content = UNTITLED_YML then
        Inr (YMap [(js ''on'', YMap [(js ''workflow_call'', YNull)])])
      else if content = PREFIX_YML then
        Inr (YMap [(js ''name'', YStr (js ''Reusable.'')),
                   (js ''on'', YMap [(js ''workflow_call'', YNull)])])
      else Inl YAMLParseError)"

definition sampleRead :: "jsstring \<rightharpoonup> jsstring" where
  "sampleRead =
     map_of [(js ''.github/workflows/quality-lint.yml'', LINT_YML),
             (js ''.github/workflows/quality-format.yml'', LINT_YML),
             (js ''.github/workflows/quality-typecheck.yml'', LINT_YML),
             (js ''.github/workflows/test-unit.yml'', LINT_YML),
             (js ''.github/workflows/security-audit.yaml'', LINT_YML),
             (js ''.github/workflows/broken.yml'', BROKEN_YML),
             (js ''.github/workflows/deploy-prod.yml'', UNTITLED_YML),
             (js ''.github/workflows/release-notes.yml'', PREFIX_YML)]"

definition fiveValidOneBroken :: "jsstring list" where
  "fiveValidOneBroken =
     [js ''.github/workflows/quality-lint.yml'',
      js ''.github/workflows/quality-format.yml'',
      js ''.github/workflows/broken.yml'',
      js ''.github/workflows/quality-typecheck.yml'',
      js ''.github/workflows/test-unit.yml'',
      js ''.github/workflows/security-audit.yaml'']"

definition twoParseOneBroken :: "jsstring list" where
  "twoParseOneBroken =
     [js ''.github/workflows/quality-lint.yml'',
      js ''.github/workflows/deploy-prod.yml'',
      js ''.github/workflows/broken.yml'']"

text \<open>
  A workflow that no prefix rule matches and whose name holds a keyword; READMEs with
  the two regions apart, with the regions adjacent, and in the earlier layout without
  delimiter comments; a repository with nothing but its README.
\<close>

definition unitTests :: Workflow where
  "unitTests =
     \<lparr>name = js ''Unit Tests'', description = NO_DESCRIPTION,
      filePath = js ''.github/workflows/ci.yml'', fileName = js ''ci.yml'',
      inputs = None, secrets = None, outputs = None, isReusable = True\<rparr>"

definition HAND_WRITTEN :: jsstring where
  "HAND_WRITTEN = js ''## Notes kept by hand\<newline>\<newline>''"

definition separatedReadme :: jsstring where
  "separatedReadme =
     js ''# Workflows\<newline>\<newline>''
     @ BEGIN_AVAILABLE @ js ''\<newline>old table\<newline>'' @ END_AVAILABLE @ js ''\<newline>\<newline>''
     @ HAND_WRITTEN
     @ BEGIN_FOLDER @ js ''\<newline>old tree\<newline>'' @ END_FOLDER @ js ''\<newline>\<newline>''
     @ js ''## Quick Start\<newline>''"

definition markedReadme :: jsstring where
  "markedReadme =
     js ''# Workflows\<newline>\<newline>''
     @ BEGIN_AVAILABLE @ js ''\<newline>old table\<newline>'' @ END_AVAILABLE @ js ''\<newline>\<newline>''
     @ BEGIN_FOLDER @ js ''\<newline>old tree\<newline>'' @ END_FOLDER @ js ''\<newline>\<newline>''
     @ js ''## Quick Start\<newline>''"

definition unmarkedReadme :: jsstring where
  "unmarkedReadme =
     js ''# Reusable GitHub Actions Workflows\<newline>\<newline>A collection of workflows.\<newline>\<newline>''
     @ js ''## Available Workflows\<newline>\<newline>old table\<newline>\<newline>''
     @ js ''## Folder Structure\<newline>\<newline>old tree\<newline>\<newline>''
     @ js ''## Quick Start\<newline>''"

definition onlyReadme :: "jsstring \<Rightarrow> (jsstring \<rightharpoonup> jsstring)" where
  "onlyReadme content = [README \<mapsto> content]"

definition anyOrder :: "jsstring \<Rightarrow> jsstring \<Rightarrow> int" where
  "anyOrder a b = 0"

definition EMPTY_TABLE :: jsstring where
  "EMPTY_TABLE = js ''No reusable workflows found.\<newline>''"

definition EMPTY_TREE :: jsstring where
  "EMPTY_TREE = renderFolderStructureSection anyOrder [] [] (onlyReadme [])"

definition BARE_TREE :: jsstring where
  "BARE_TREE = js ''```\<newline>.github/\<newline>```''"

section \<open>Properties of the string operations\<close>

lemma lastIndexBelow_range:
  "lastIndexBelow s pat k = -1 \<or> (0 \<le> lastIndexBelow s pat k \<and> lastIndexBelow s pat k \<le> int k)"
  by (induction k) auto

lemma lastIndexBelow_found:
  "lastIndexBelow s pat k \<noteq> -1 \<Longrightarrow> startsWith (drop (nat (lastIndexBelow s pat k)) s) pat"
  by (induction k) (auto split: if_splits simp: nat_add_distrib)

lemma lastIndexBelow_none:
  "lastIndexBelow s pat k = -1 \<Longrightarrow> j \<le> k \<Longrightarrow> \<not> startsWith (drop j s) pat"
proof (induction k)
  case 0
  then show ?case by (auto split: if_splits)
next
  case (Suc k)
  then show ?case by (cases "j = Suc k") (auto split: if_splits)
qed

lemma startsWith_single:
  "startsWith (drop j s) [c] \<longleftrightarrow> j < length s \<and> s ! j = c"
proof (cases "j < length s")
  case True
  then have "drop j s = s ! j # drop (Suc j) s" by (simp add: Cons_nth_drop_Suc)
  then show ?thesis using True by (auto simp add: startsWith_def)
next
  case False
  then show ?thesis by (simp add: startsWith_def)
qed

lemma indexOf_range: "indexOf s pat = -1 \<or> 0 \<le> indexOf s pat"
  by (induction s) (auto simp: Let_def)

lemma indexOf_found:
  "indexOf s pat \<noteq> -1 \<Longrightarrow> prefix pat (drop (nat (indexOf s pat)) s)"
proof (induction s)
  case Nil
  then show ?case by (auto split: if_splits)
next
  case (Cons c cs)
  show ?case
  proof (cases "startsWith (c # cs) pat")
    case True
    then show ?thesis by (simp add: startsWith_def)
  next
    case False
    with Cons.prems have ne: "indexOf cs pat \<noteq> -1" by (auto simp: Let_def split: if_splits)
    with Cons.IH have "prefix pat (drop (nat (indexOf cs pat)) cs)" by simp
    moreover have "0 \<le> indexOf cs pat" using ne indexOf_range[of cs pat] by auto
    ultimately show ?thesis using False ne by (simp add: Let_def nat_add_distrib)
  qed
qed

lemma indexOf_least:
  "prefix pat (drop j s) \<Longrightarrow> j \<le> length s \<Longrightarrow> indexOf s pat \<noteq> -1 \<and> indexOf s pat \<le> int j"
proof (induction s arbitrary: j)
  case Nil
  then show ?case by auto
next
  case (Cons c cs)
  show ?case
  proof (cases "startsWith (c # cs) pat")
    case True
    then show ?thesis by simp
  next
    case False
    then have "j \<noteq> 0" using Cons.prems by (auto simp: startsWith_def intro: ccontr)
    then obtain j' where j: "j = Suc j'" by (cases j) auto
    with Cons.prems have "prefix pat (drop j' cs)" "j' \<le> length cs" by auto
    from Cons.IH[OF this] have "indexOf cs pat \<noteq> -1 \<and> indexOf cs pat \<le> int j'" .
    then show ?thesis using False j indexOf_range[of cs pat] by (auto simp: Let_def)
  qed
qed

lemma indexOf_bound:
  assumes "indexOf s pat \<noteq> -1"
  shows "nat (indexOf s pat) + length pat \<le> length s"
proof -
  have p: "prefix pat (drop (nat (indexOf s pat)) s)" using assms by (rule indexOf_found)
  then have "length pat \<le> length (drop (nat (indexOf s pat)) s)" by (rule prefix_length_le)
  moreover have "nat (indexOf s pat) \<le> length s"
  proof (rule ccontr)
    assume "\<not> nat (indexOf s pat) \<le> length s"
    then have "drop (nat (indexOf s pat)) s = []" by simp
    with p have "pat = []" by simp
    then have "indexOf s pat = 0" by (cases s) (auto simp: startsWith_def)
    with \<open>\<not> nat (indexOf s pat) \<le> length s\<close> show False by simp
  qed
  ultimately show ?thesis by simp
qed

lemma substring_take: "substring s 0 (int k) = take k s"
  by (simp add: substring_def Let_def min_def max_def)

lemma substringFrom_drop: "substringFrom s (int k) = drop k s"
  by (simp add: substringFrom_def substring_def Let_def min_def max_def)

lemma join_Cons: "xs \<noteq> [] \<Longrightarrow> join sep (x # xs) = x @ sep @ join sep xs"
  by (cases xs) auto

lemma split_piece_le: "p \<in> set (split s sep) \<Longrightarrow> length p \<le> length s"
proof (induction s sep arbitrary: p rule: split.induct)
  case (1 s sep)
  show ?case
  proof (cases "sep = []")
    case True
    with 1(2) have "\<exists>c\<in>set s. p = [c]" by (subst (asm) split.simps) auto
    then have "length p = 1" "s \<noteq> []" by auto
    then show ?thesis by (cases s) auto
  next
    case False
    show ?thesis
    proof (cases "indexOf s sep = -1")
      case True
      with False 1(2) show ?thesis by (subst (asm) split.simps) simp
    next
      case found: False
      from 1(2) False found have "p = take (nat (indexOf s sep)) s
          \<or> p \<in> set (split (drop (nat (indexOf s sep) + length sep) s) sep)"
        by (subst (asm) split.simps) (simp add: Let_def)
      then show ?thesis
      proof
        assume "p = take (nat (indexOf s sep)) s"
        then show ?thesis by simp
      next
        assume "p \<in> set (split (drop (nat (indexOf s sep) + length sep) s) sep)"
        from 1(1)[OF False refl found this] show ?thesis by simp
      qed
    qed
  qed
qed

section \<open>Properties of text wrapping\<close>

lemma lastIndexOf_width:
  assumes "0 < n" "n < length t"
  shows "lastIndexOf t pat (int n - 1) = lastIndexBelow t pat (n - 1)"
proof -
  have "nat (min (max (int n - 1) 0) (int (length t))) = n - 1"
    using assms by (simp add: min_def max_def) linarith
  then show ?thesis unfolding lastIndexOf_def by (simp only:)
qed

lemma lastSpace_none:
  assumes "0 < n" "n < length t" "lastIndexOf t [SPACE] (int n - 1) = -1"
  shows "SPACE \<notin> set (take n t)"
proof
  assume "SPACE \<in> set (take n t)"
  then obtain j where j: "j < length (take n t)" "take n t ! j = SPACE"
    by (auto simp: in_set_conv_nth)
  then have jn: "j < n" "j < length t" "t ! j = SPACE" by auto
  from assms have "lastIndexBelow t [SPACE] (n - 1) = -1"
    by (simp add: lastIndexOf_width)
  moreover have "j \<le> n - 1" using jn by simp
  ultimately have "\<not> startsWith (drop j t) [SPACE]" by (rule lastIndexBelow_none)
  with jn show False by (simp add: startsWith_single)
qed

lemma lastSpace_some:
  assumes "0 < n" "n < length t" "lastIndexOf t [SPACE] (int n - 1) \<noteq> -1"
  shows "\<exists>i. lastIndexOf t [SPACE] (int n - 1) = int i \<and> i < n \<and> t ! i = SPACE"
proof -
  from assms have eq: "lastIndexOf t [SPACE] (int n - 1) = lastIndexBelow t [SPACE] (n - 1)"
    by (simp add: lastIndexOf_width)
  let ?r = "lastIndexBelow t [SPACE] (n - 1)"
  from assms eq have ne: "?r \<noteq> -1" by simp
  with lastIndexBelow_range[of t "[SPACE]" "n - 1"] have r: "0 \<le> ?r" "?r \<le> int (n - 1)" by auto
  from lastIndexBelow_found[OF ne] have "nat ?r < length t \<and> t ! nat ?r = SPACE"
    by (simp add: startsWith_single)
  with r assms eq show ?thesis by (intro exI[of _ "nat ?r"]) auto
qed

lemma wrapText_returns: "0 < n \<Longrightarrow> \<exists>out. wrapText t n = Some out"
proof (induction t rule: length_induct)
  case (1 t)
  show ?case
  proof (cases "length t \<le> n")
    case True
    then show ?thesis by (subst wrapText.simps) simp
  next
    case long: False
    show ?thesis
    proof (cases "lastIndexOf t [SPACE] (int n - 1) = -1")
      case True
      from long 1 have "\<exists>out. wrapText (drop n t) n = Some out" by simp
      then show ?thesis using long True
        by (subst wrapText.simps) (auto simp: substringFrom_drop Let_def)
    next
      case False
      with lastSpace_some[of n t] long 1 obtain i where
        i: "lastIndexOf t [SPACE] (int n - 1) = int i" "i < n" by auto
      with long 1 have "\<exists>out. wrapText (drop (Suc i) t) n = Some out" by simp
      then show ?thesis using long False i
        by (subst wrapText.simps)
          (auto simp: substringFrom_drop[of t "Suc i", simplified] add.commute Let_def)
    qed
  qed
qed

lemma wrapText_short: "length t \<le> n \<Longrightarrow> wrapText t n = Some t"
  by (subst wrapText.simps) simp

lemma wrapText_hard:
  assumes "n < length t" "lastIndexOf t [SPACE] (int n - 1) = -1" "wrapText (drop n t) n = Some rest"
  shows "wrapText t n = Some (take n t @ BR @ rest)"
  using assms by (subst wrapText.simps) (simp add: substringFrom_drop substring_take Let_def)

lemma wrapText_soft:
  assumes "n < length t" "lastIndexOf t [SPACE] (int n - 1) = int i"
    "wrapText (drop (Suc i) t) n = Some rest"
  shows "wrapText t n = Some (take i t @ BR @ rest)"
proof -
  have "substringFrom t (int i + 1) = drop (Suc i) t"
    using substringFrom_drop[of t "Suc i"] by (simp add: add.commute)
  with assms show ?thesis
    by (subst wrapText.simps) (simp add: substring_take Let_def)
qed

lemma wrapText_weave:
  "0 < n \<Longrightarrow> \<exists>segs seps. wrapText t n = Some (join BR segs) \<and> weave segs seps = t
      \<and> length segs = Suc (length seps) \<and> (\<forall>s\<in>set segs. length s \<le> n)
      \<and> list_all2 (breakAfter n) (butlast segs) seps"
proof (induction t rule: length_induct)
  case (1 t)
  show ?case
  proof (cases "length t \<le> n")
    case True
    then have "wrapText t n = Some (join BR [t]) \<and> weave [t] [] = t \<and> length [t] = Suc (length ([]::jsstring list))
        \<and> (\<forall>s\<in>set [t]. length s \<le> n) \<and> list_all2 (breakAfter n) (butlast [t]) []"
      by (simp add: wrapText_short)
    then show ?thesis by blast
  next
    case long: False
    show ?thesis
    proof (cases "lastIndexOf t [SPACE] (int n - 1) = -1")
      case True
      have "length (drop n t) < length t" using long \<open>0 < n\<close> by simp
      with 1 obtain segs seps where ih: "wrapText (drop n t) n = Some (join BR segs)"
        "weave segs seps = drop n t" "length segs = Suc (length seps)"
        "\<forall>s\<in>set segs. length s \<le> n" "list_all2 (breakAfter n) (butlast segs) seps"
        by blast
      from ih(3) have ne: "segs \<noteq> []" by auto
      have nospace: "SPACE \<notin> set (take n t)"
        using lastSpace_none[OF \<open>0 < n\<close> _ True] long by simp
      have "wrapText t n = Some (join BR (take n t # segs))"
        using wrapText_hard[OF _ True ih(1)] long ne by (simp add: join_Cons)
      moreover have "weave (take n t # segs) ([] # seps) = t" using ih(2) by simp
      moreover have "length (take n t # segs) = Suc (length ([] # seps))" using ih(3) by simp
      moreover have "\<forall>s\<in>set (take n t # segs). length s \<le> n" using ih(4) by simp
      moreover have "list_all2 (breakAfter n) (butlast (take n t # segs)) ([] # seps)"
        using ih(5) ne nospace long by (simp add: breakAfter_def)
      ultimately show ?thesis by blast
    next
      case False
      with lastSpace_some[of n t] long 1 obtain i where
        i: "lastIndexOf t [SPACE] (int n - 1) = int i" "i < n" "t ! i = SPACE" by auto
      have il: "i < length t" using i long by simp
      then have "length (drop (Suc i) t) < length t" by simp
      with 1 obtain segs seps where ih: "wrapText (drop (Suc i) t) n = Some (join BR segs)"
        "weave segs seps = drop (Suc i) t" "length segs = Suc (length seps)"
        "\<forall>s\<in>set segs. length s \<le> n" "list_all2 (breakAfter n) (butlast segs) seps"
        by blast
      from ih(3) have ne: "segs \<noteq> []" by auto
      have "wrapText t n = Some (join BR (take i t # segs))"
        using wrapText_soft[OF _ i(1) ih(1)] long ne by (simp add: join_Cons)
      moreover have "weave (take i t # segs) ([SPACE] # seps) = t"
        using ih(2) i(3) id_take_nth_drop[OF il] by simp
      moreover have "length (take i t # segs) = Suc (length ([SPACE] # seps))" using ih(3) by simp
      moreover have "\<forall>s\<in>set (take i t # segs). length s \<le> n" using ih(4) i(2) by simp
      moreover have "list_all2 (breakAfter n) (butlast (take i t # segs)) ([SPACE] # seps)"
        using ih(5) ne i(2) il by (simp add: breakAfter_def)
      ultimately show ?thesis by blast
    qed
  qed
qed

lemma BR_length: "length BR = 4"
  by (simp add: BR_def js_def)

lemma BR_first:
  fixes x rest :: jsstring
  defines "s \<equiv> x @ BR @ rest"
  shows "indexOf s BR \<noteq> -1 \<and> 0 \<le> indexOf s BR
     \<and> (nat (indexOf s BR) = length x \<or> nat (indexOf s BR) + 4 \<le> length x)"
proof -
  have "prefix BR (drop (length x) s)" by (simp add: s_def)
  moreover have "length x \<le> length s" by (simp add: s_def)
  ultimately have r: "indexOf s BR \<noteq> -1" "indexOf s BR \<le> int (length x)"
    using indexOf_least by blast+
  with indexOf_range[of s BR] have r0: "0 \<le> indexOf s BR" by auto
  define r where "r = nat (indexOf s BR)"
  have rle: "r \<le> length x" using r r0 by (simp add: r_def)
  have occ: "prefix BR (drop r s)" unfolding r_def using r(1) by (rule indexOf_found)
  have "r = length x \<or> r + 4 \<le> length x"
  proof (rule ccontr)
    assume "\<not> (r = length x \<or> r + 4 \<le> length x)"
    with rle have d: "r < length x" "length x < r + 4" by auto
    define d where "d = length x - r"
    have dr: "0 < d" "d < 4" "r + d = length x" using d by (auto simp: d_def)
    from occ obtain zs where zs: "drop r s = BR @ zs" by (auto simp: prefix_def)
    have "r + d \<le> length s" using dr by (simp add: s_def)
    then have "drop r s ! d = s ! (r + d)" by simp
    also have "\<dots> = BR ! 0" using dr by (simp add: s_def nth_append BR_length)
    finally have "(BR @ zs) ! d = BR ! 0" using zs by simp
    then have "BR ! d = BR ! 0" using dr by (simp add: nth_append BR_length)
    moreover have "d = 1 \<or> d = 2 \<or> d = 3" using dr by auto
    ultimately show False by (auto simp: BR_def js_def ascii_def)
  qed
  with r r0 show ?thesis by (simp add: r_def)
qed

lemma split_join_bound:
  "\<forall>s\<in>set segs. length s \<le> n \<Longrightarrow> p \<in> set (split (join BR segs) BR) \<Longrightarrow> length p \<le> n"
proof (induction "length (join BR segs)" arbitrary: segs p rule: less_induct)
  case less
  have brne: "BR \<noteq> []" using BR_length by auto
  show ?case
  proof (cases segs)
    case Nil
    with less.prems brne show ?thesis by (subst (asm) split.simps) simp
  next
    case (Cons x rest)
    show ?thesis
    proof (cases rest)
      case Nil
      with Cons less.prems split_piece_le[of p x BR] show ?thesis by auto
    next
      case (Cons y ys)
      let ?s = "join BR segs"
      have s: "?s = x @ BR @ join BR rest" using \<open>segs = x # rest\<close> Cons by simp
      from BR_first[of x "join BR rest"] s
      have r: "indexOf ?s BR \<noteq> -1" "0 \<le> indexOf ?s BR"
        "nat (indexOf ?s BR) = length x \<or> nat (indexOf ?s BR) + 4 \<le> length x" by auto
      from less.prems(2) brne r(1) have "p = take (nat (indexOf ?s BR)) ?s
          \<or> p \<in> set (split (drop (nat (indexOf ?s BR) + length BR) ?s) BR)"
        by (subst (asm) split.simps) (simp add: Let_def)
      then show ?thesis
      proof
        assume "p = take (nat (indexOf ?s BR)) ?s"
        then have "length p \<le> length x" using r(3) by (auto simp: s)
        with less.prems(1) \<open>segs = x # rest\<close> show ?thesis by auto
      next
        assume p: "p \<in> set (split (drop (nat (indexOf ?s BR) + length BR) ?s) BR)"
        from r(3) show ?thesis
        proof
          assume eq: "nat (indexOf ?s BR) = length x"
          then have "drop (nat (indexOf ?s BR) + length BR) ?s = join BR rest"
            by (simp add: s BR_length)
          moreover have "length (join BR rest) < length ?s" by (simp add: s BR_length)
          moreover have "\<forall>s\<in>set rest. length s \<le> n" using less.prems(1) \<open>segs = x # rest\<close> by simp
          ultimately show ?thesis using less.hyps[of rest p] p by simp
        next
          assume le: "nat (indexOf ?s BR) + 4 \<le> length x"
          let ?x' = "drop (nat (indexOf ?s BR) + 4) x"
          have "drop (nat (indexOf ?s BR) + length BR) ?s = join BR (?x' # rest)"
            using le Cons by (simp add: s BR_length)
          moreover have "length (join BR (?x' # rest)) < length ?s"
            using le Cons by (simp add: s BR_length)
          moreover have "\<forall>s\<in>set (?x' # rest). length s \<le> n"
            using less.prems(1) \<open>segs = x # rest\<close> by auto
          ultimately show ?thesis using less.hyps[of "?x' # rest" p] p by simp
        qed
      qed
    qed
  qed
qed

text \<open>
  C3 (as amended). For every text and every width \<open>n > 0\<close>, \<open>wrapText\<close> returns, and every
  segment of its result obtained by splitting on the break marker has length at most
  \<open>n\<close>. The result is the join, by the break marker, of segments of the text of length at
  most \<open>n\<close>; in the text each segment but the last is followed either by one space, which
  the break marker replaces (the segment is then shorter than \<open>n\<close>), or by nothing, the
  segment being a space-free run of exactly \<open>n\<close> code units (a hard split). The original
  text is the segments with those separators put back, not the result with its break
  markers removed.
\<close>

theorem wrapText_segments:
  assumes "0 < n"
  shows "\<exists>out segs seps. wrapText t n = Some out \<and> out = join BR segs
      \<and> (\<forall>p\<in>set (split out BR). length p \<le> n)
      \<and> weave segs seps = t \<and> length segs = Suc (length seps)
      \<and> (\<forall>s\<in>set segs. length s \<le> n)
      \<and> list_all2 (breakAfter n) (butlast segs) seps"
proof -
  from wrapText_weave[OF assms, of t] obtain segs seps where
    w: "wrapText t n = Some (join BR segs)" "weave segs seps = t"
      "length segs = Suc (length seps)" "\<forall>s\<in>set segs. length s \<le> n"
      "list_all2 (breakAfter n) (butlast segs) seps"
    by blast
  from w(4) have "\<forall>p\<in>set (split (join BR segs) BR). length p \<le> n"
    using split_join_bound by blast
  with w show ?thesis by blast
qed

theorem wrapText_segments_witness:
  "0 < (3::nat) \<and> (\<exists>out segs seps. wrapText (js ''ab cd'') 3 = Some out \<and> out = join BR segs
      \<and> (\<forall>p\<in>set (split out BR). length p \<le> 3)
      \<and> weave segs seps = js ''ab cd'' \<and> length segs = Suc (length seps)
      \<and> (\<forall>s\<in>set segs. length s \<le> 3)
      \<and> list_all2 (breakAfter 3) (butlast segs) seps)"
  using wrapText_segments[of 3 "js ''ab cd''"] by simp

text \<open>
  C3 as stated fails: the soft break of \<open>ab cd\<close> at width 3 drops the space, so removing
  the break marker from the result gives \<open>abcd\<close>.
\<close>

theorem wrapText_roundtrip_counterexample:
  "wrapText (js ''ab cd'') 3 = Some (js ''ab<br>cd'')
   \<and> removeBreaks (js ''ab<br>cd'') \<noteq> js ''ab cd''"
  by code_simp

section \<open>Properties of the collector\<close>

lemma scanLines_spec:
  "scanLines ls =
     (case filter (\<lambda>l. isCommentLine l \<and> commentBody l \<noteq> [])
             (takeWhile (\<lambda>l. isBlankLine l \<or> isCommentLine l) ls) of
        [] \<Rightarrow> NO_DESCRIPTION
      | l # _ \<Rightarrow> commentBody l)"
  by (induction ls)
    (auto simp: Let_def isBlankLine_def isCommentLine_def commentBody_def slice1_def startsWith_def)

text \<open>
  C4. For every raw file text, the description \<open>getWorkflowDescription\<close> extracts is the
  one the specification describes: the stripped body of the first comment line with a
  non-empty body before the first line that is neither blank nor a comment (blank lines
  and comment lines with an empty body are passed over), and the sentinel
  \<open>No description provided.\<close> when there is none. A file that starts with comment lines
  of bodies \<open>A\<close>, empty and \<open>B\<close>, followed by other content, has the description \<open>A\<close>.
\<close>

theorem getWorkflowDescription_spec:
  "getWorkflowDescription raw = specifiedDescription raw
   \<and> getWorkflowDescription (js ''# A\<newline>#\<newline># B\<newline>name: CI'') = js ''A''"
proof
  show "getWorkflowDescription raw = specifiedDescription raw"
    by (simp add: getWorkflowDescription_def specifiedDescription_def scanLines_spec)
  show "getWorkflowDescription (js ''# A\<newline>#\<newline># B\<newline>name: CI'') = js ''A''"
    by code_simp
qed

theorem getWorkflowDescription_spec_witness:
  "getWorkflowDescription (js ''#\<newline>  # build and test  \<newline>name: CI'')
     = specifiedDescription (js ''#\<newline>  # build and test  \<newline>name: CI'')
   \<and> getWorkflowDescription (js ''# A\<newline>#\<newline># B\<newline>name: CI'') = js ''A''"
  using getWorkflowDescription_spec[of "js ''#\<newline>  # build and test  \<newline>name: CI''"]
  by simp

lemma scanLoop_acc:
  "scanLoop P fs files ws warns =
     (ws @ [w. f \<leftarrow> files, Inr w \<leftarrow> [processFile P fs f]],
      warns @ [(f, e). f \<leftarrow> files, Inl e \<leftarrow> [processFile P fs f]])"
  by (induction files arbitrary: ws warns) (auto split: sum.splits)

lemma scanWorkflows_eq:
  "scanWorkflows P fs files =
     ([w. f \<leftarrow> files, Inr w \<leftarrow> [processFile P fs f]],
      [(f, e). f \<leftarrow> files, Inl e \<leftarrow> [processFile P fs f]])"
  by (simp add: scanWorkflows_def scanLoop_acc)

lemma successes_length:
  "length [w. f \<leftarrow> files, Inr w \<leftarrow> [processFile P fs f]]
     = length (filter (\<lambda>f. \<not> isl (processFile P fs f)) files)"
  by (induction files) (auto split: sum.splits)

lemma failures_paths:
  "map fst [(f, e). f \<leftarrow> files, Inl e \<leftarrow> [processFile P fs f]]
     = filter (\<lambda>f. isl (processFile P fs f)) files"
  by (induction files) (auto split: sum.splits)

lemma processFile_name:
  assumes "processFile P fs f = Inr w"
  shows "filePath w = f \<and> (\<exists>content workflow title. fs f = Some content \<and> P content = Inr workflow
      \<and> getProp (Some workflow) (js ''name'') = Inr (Some (YStr title))
      \<and> name w = (if replaceReusable title \<noteq> [] then replaceReusable title
                   else basenameSuffix f (extname f)))"
  using assms
  by (auto simp: processFile_def workflowName_def split: option.splits sum.splits yaml.splits)

lemma lastComponent_file:
  assumes "file \<noteq> []" "SLASH \<notin> set file"
  shows "lastComponent (d @ [SLASH] @ file) = file"
proof -
  have "rev file \<noteq> []" using assms by simp
  then obtain c cs where r: "rev file = c # cs" by (cases "rev file") auto
  then have "c \<in> set file" by (metis list.set_intros(1) set_rev)
  with assms have c: "c \<noteq> SLASH" by auto
  have "takeWhile (\<lambda>c. c \<noteq> SLASH) (rev file @ SLASH # rev d) = rev file"
    using assms by (subst takeWhile_append2) auto
  then show ?thesis using r c by (simp add: lastComponent_def)
qed

lemma extname_file:
  assumes "lastComponent p = stem @ DOT # e" "stem \<noteq> []" "DOT \<notin> set e" "e \<noteq> []"
  shows "extname p = DOT # e"
proof -
  let ?comp = "stem @ DOT # e"
  have "takeWhile (\<lambda>c. c \<noteq> DOT) (rev e @ DOT # rev stem) = rev e"
    using assms(3) by (subst takeWhile_append2) auto
  then have "takeWhile (\<lambda>c. c \<noteq> DOT) (rev ?comp) = rev e" by simp
  moreover have "?comp \<noteq> [DOT, DOT]" using assms(2,4)
    by (cases stem; cases e) auto
  ultimately show ?thesis using assms by (simp add: extname_def Let_def)
qed

lemma basenameSuffix_file:
  assumes "lastComponent p = stem @ ext" "stem \<noteq> []" "ext \<noteq> []" "length (stem @ ext) < length p"
  shows "basenameSuffix p ext = stem"
proof -
  have "ext \<noteq> p" using assms(4) by auto
  moreover have "ext \<noteq> stem @ ext" using assms(2) by simp
  moreover have "length ext \<le> length p" using assms(4) by simp
  moreover have "suffix ext (stem @ ext)" by (simp add: suffix_def)
  ultimately show ?thesis using assms by (simp add: basenameSuffix_def Let_def)
qed

lemma DIR_parts: "WORKFLOWS_DIR = js ''.github/workflows'' @ [SLASH]"
  by (simp add: WORKFLOWS_DIR_def js_def SLASH_def)

lemma glob_stem:
  assumes "matchesWorkflowGlob p"
  shows "\<exists>stem. stem \<noteq> [] \<and> basenameSuffix p (extname p) = stem"
proof -
  define file' where "file' = drop (length WORKFLOWS_DIR) p"
  from assms have p: "p = WORKFLOWS_DIR @ file'"
    by (auto simp: matchesWorkflowGlob_def startsWith_def prefix_def file'_def)
  from assms have f: "file' \<noteq> []" "SLASH \<notin> set file'" "hd file' \<noteq> DOT"
    "suffix (js ''.yml'') file' \<or> suffix (js ''.yaml'') file'"
    by (auto simp: matchesWorkflowGlob_def Let_def file'_def)
  have "p = js ''.github/workflows'' @ [SLASH] @ file'" using p DIR_parts by simp
  then have comp: "lastComponent p = file'"
    using lastComponent_file[OF f(1,2), of "js ''.github/workflows''"] by simp
  from f(4) obtain stem e where e: "file' = stem @ DOT # e" "DOT \<notin> set e" "e \<noteq> []"
    by (auto simp: suffix_def js_def ascii_def DOT_def)
  with f(3) have stem: "stem \<noteq> []" by (cases stem) auto
  have ext: "extname p = DOT # e" using extname_file[of p stem e] comp e stem by simp
  have "length (stem @ DOT # e) < length p" using p e by (simp add: WORKFLOWS_DIR_def js_def)
  with basenameSuffix_file[of p stem "DOT # e"] comp e stem ext
  have "basenameSuffix p (extname p) = stem" by simp
  with stem show ?thesis by blast
qed

lemma processFile_ok_iff:
  "\<not> isl (processFile P fs f) \<longleftrightarrow>
     (\<exists>content workflow title. fs f = Some content \<and> P content = Inr workflow
        \<and> getProp (Some workflow) (js ''name'') = Inr (Some (YStr title))
        \<and> \<not> isl (workflowIsReusable workflow))"
  by (auto simp: processFile_def workflowName_def split: option.splits sum.splits yaml.splits)

lemma scanWorkflows_member:
  assumes "w \<in> set (fst (scanWorkflows P fs files))"
  shows "\<exists>f\<in>set files. processFile P fs f = Inr w"
  using assms by (auto simp: scanWorkflows_eq split: sum.splits)

text \<open>
  What the loop does for every enumerated set of files: \<open>scanWorkflows\<close> has no exception
  to throw (each one raised for a file is caught in the loop); it returns the records of
  the files whose processing raised nothing, in the order of the enumeration, and logs
  one warning for each of the other files, which include every file that is read but
  whose content the parser rejects. Processing a file raises nothing exactly when the
  file is read, its content parses, the parsed document has a string \<open>name\<close>, and the
  test for the callable trigger raises nothing.
\<close>

lemma scanWorkflows_resilient:
  "fst (scanWorkflows parse readFile files)
     = [w. f \<leftarrow> files, Inr w \<leftarrow> [processFile parse readFile f]]
   \<and> map fst (snd (scanWorkflows parse readFile files))
     = filter (\<lambda>f. isl (processFile parse readFile f)) files
   \<and> length (fst (scanWorkflows parse readFile files))
     = length (filter (\<lambda>f. \<not> isl (processFile parse readFile f)) files)
   \<and> (\<forall>f content e. readFile f = Some content \<and> parse content = Inl e
        \<longrightarrow> isl (processFile parse readFile f))
   \<and> (\<forall>f. \<not> isl (processFile parse readFile f) \<longleftrightarrow>
        (\<exists>content workflow title. readFile f = Some content \<and> parse content = Inr workflow
           \<and> getProp (Some workflow) (js ''name'') = Inr (Some (YStr title))
           \<and> \<not> isl (workflowIsReusable workflow)))"
proof -
  have c1: "fst (scanWorkflows parse readFile files)
      = [w. f \<leftarrow> files, Inr w \<leftarrow> [processFile parse readFile f]]"
    by (simp add: scanWorkflows_eq)
  have c2: "map fst (snd (scanWorkflows parse readFile files))
      = filter (\<lambda>f. isl (processFile parse readFile f)) files"
    unfolding scanWorkflows_eq snd_conv by (rule failures_paths)
  have c3: "length (fst (scanWorkflows parse readFile files))
      = length (filter (\<lambda>f. \<not> isl (processFile parse readFile f)) files)"
    unfolding scanWorkflows_eq fst_conv by (rule successes_length)
  have c4: "\<forall>f content e. readFile f = Some content \<and> parse content = Inl e
      \<longrightarrow> isl (processFile parse readFile f)"
    by (simp add: processFile_def)
  have c5: "\<forall>f. \<not> isl (processFile parse readFile f) \<longleftrightarrow>
      (\<exists>content workflow title. readFile f = Some content \<and> parse content = Inr workflow
         \<and> getProp (Some workflow) (js ''name'') = Inr (Some (YStr title))
         \<and> \<not> isl (workflowIsReusable workflow))"
    using processFile_ok_iff by blast
  show ?thesis by (intro conjI c1 c2 c3 c4 c5)
qed

lemma five_valid_one_broken:
  "length (fst (scanWorkflows sampleParse sampleRead fiveValidOneBroken)) = 5
   \<and> map fst (snd (scanWorkflows sampleParse sampleRead fiveValidOneBroken))
       = [js ''.github/workflows/broken.yml'']
   \<and> sampleRead (js ''.github/workflows/broken.yml'') = Some BROKEN_YML
   \<and> sampleParse BROKEN_YML = Inl YAMLParseError
   \<and> isl (processFile sampleParse sampleRead (js ''.github/workflows/broken.yml''))"
proof -
  have a: "length (filter (\<lambda>f. \<not> isl (processFile sampleParse sampleRead f)) fiveValidOneBroken) = 5"
    by code_simp
  have b: "filter (\<lambda>f. isl (processFile sampleParse sampleRead f)) fiveValidOneBroken
      = [js ''.github/workflows/broken.yml'']"
    by code_simp
  have c: "sampleRead (js ''.github/workflows/broken.yml'') = Some BROKEN_YML"
    by code_simp
  have d: "sampleParse BROKEN_YML = Inl YAMLParseError"
    by code_simp
  note t = scanWorkflows_resilient[of sampleParse sampleRead fiveValidOneBroken]
  have 1: "length (fst (scanWorkflows sampleParse sampleRead fiveValidOneBroken)) = 5"
    using t[THEN conjunct2, THEN conjunct2, THEN conjunct1] a by (rule trans)
  have 2: "map fst (snd (scanWorkflows sampleParse sampleRead fiveValidOneBroken))
      = [js ''.github/workflows/broken.yml'']"
    using t[THEN conjunct2, THEN conjunct1] b by (rule trans)
  have 3: "isl (processFile sampleParse sampleRead (js ''.github/workflows/broken.yml''))"
    using t[THEN conjunct2, THEN conjunct2, THEN conjunct2, THEN conjunct1] c d by blast
  show ?thesis by (intro conjI 1 2 c d 3)
qed

text \<open>
  C8. Three enumerated files: one valid, one that parses but declares no \<open>name\<close>, one that
  is not valid YAML. Two of them parse, and C8 expects their two records and one warning;
  \<open>scanWorkflows\<close> returns the record of the first file only and logs two warnings, the
  second file being rejected with the TypeError of \<open>workflow.name.replace\<close>. The call does
  not throw, and with five valid files and one broken the result has five records and
  one warning (\<open>five_valid_one_broken\<close>).
\<close>

theorem parsed_file_without_name_left_out:
  "sampleRead (js ''.github/workflows/quality-lint.yml'') = Some LINT_YML
   \<and> \<not> isl (sampleParse LINT_YML)
   \<and> sampleRead (js ''.github/workflows/deploy-prod.yml'') = Some UNTITLED_YML
   \<and> \<not> isl (sampleParse UNTITLED_YML)
   \<and> sampleRead (js ''.github/workflows/broken.yml'') = Some BROKEN_YML
   \<and> sampleParse BROKEN_YML = Inl YAMLParseError
   \<and> scanWorkflows sampleParse sampleRead twoParseOneBroken
       = ([\<lparr>name = js ''Lint Checker'', description = NO_DESCRIPTION,
             filePath = js ''.github/workflows/quality-lint.yml'',
             fileName = js ''quality-lint.yml'',
             inputs = None, secrets = None, outputs = None, isReusable = True\<rparr>],
          [(js ''.github/workflows/deploy-prod.yml'', TypeError),
           (js ''.github/workflows/broken.yml'', YAMLParseError)])"
  by code_simp

lemma untitled_rejected:
  assumes "readFile path = Some content" "parse content = Inr workflow"
    "getProp (Some workflow) (js ''name'') = Inr None"
  shows "processFile parse readFile path = Inl TypeError"
  using assms by (simp add: processFile_def workflowName_def)

text \<open>
  C5. A workflow file that parses but declares no \<open>name\<close>: \<open>workflow.name.replace\<close> reads
  a property of \<open>undefined\<close>, the TypeError is caught by the loop, and the file is left
  out of the result with a warning (\<open>untitled_rejected\<close>: so it is for every file whose
  parsed document has no \<open>name\<close>), where C5 expects a record named \<open>deploy-prod\<close>.
\<close>

theorem untitled_workflow_dropped:
  "scanWorkflows sampleParse sampleRead [js ''.github/workflows/deploy-prod.yml'']
     = ([], [(js ''.github/workflows/deploy-prod.yml'', TypeError)])"
  by code_simp

text \<open>
  C10. Every record \<open>scanWorkflows\<close> appends for a path of the workflow glob has a
  non-empty \<open>name\<close>: the name is the declared title with the prefix removed when that is
  not empty, and the base name of the file without its extension otherwise, which is not
  empty for such a path.
\<close>

theorem collected_name_nonempty:
  assumes "list_all matchesWorkflowGlob files"
    and "w \<in> set (fst (scanWorkflows parse readFile files))"
  shows "name w \<noteq> [] \<and> filePath w \<in> set files
     \<and> basenameSuffix (filePath w) (extname (filePath w)) \<noteq> []
     \<and> (\<exists>content workflow title. readFile (filePath w) = Some content
          \<and> parse content = Inr workflow
          \<and> getProp (Some workflow) (js ''name'') = Inr (Some (YStr title))
          \<and> name w = (if replaceReusable title = []
                       then basenameSuffix (filePath w) (extname (filePath w))
                       else replaceReusable title))"
proof -
  from scanWorkflows_member[OF assms(2)] obtain f where
    f: "f \<in> set files" "processFile parse readFile f = Inr w" by blast
  from processFile_name[OF f(2)] obtain content workflow title where
    p: "filePath w = f" "readFile f = Some content" "parse content = Inr workflow"
      "getProp (Some workflow) (js ''name'') = Inr (Some (YStr title))"
      "name w = (if replaceReusable title \<noteq> [] then replaceReusable title
                 else basenameSuffix f (extname f))"
    by blast
  from assms(1) f(1) have "matchesWorkflowGlob f" by (simp add: list_all_iff)
  from glob_stem[OF this] have stem: "basenameSuffix f (extname f) \<noteq> []" by auto
  with p(5) have "name w \<noteq> []" by (simp split: if_splits)
  moreover have "name w = (if replaceReusable title = []
      then basenameSuffix (filePath w) (extname (filePath w)) else replaceReusable title)"
    using p(1,5) by simp
  ultimately show ?thesis using f(1) p(1-4) stem by auto
qed

theorem collected_name_nonempty_witness:
  "list_all matchesWorkflowGlob [js ''.github/workflows/release-notes.yml'']
   \<and> hd (fst (scanWorkflows sampleParse sampleRead [js ''.github/workflows/release-notes.yml'']))
       \<in> set (fst (scanWorkflows sampleParse sampleRead [js ''.github/workflows/release-notes.yml'']))
   \<and> name (hd (fst (scanWorkflows sampleParse sampleRead
        [js ''.github/workflows/release-notes.yml'']))) \<noteq> []
   \<and> name (hd (fst (scanWorkflows sampleParse sampleRead
        [js ''.github/workflows/release-notes.yml'']))) = js ''release-notes''"
proof -
  let ?S = "fst (scanWorkflows sampleParse sampleRead [js ''.github/workflows/release-notes.yml''])"
  have a: "list_all matchesWorkflowGlob [js ''.github/workflows/release-notes.yml'']"
    by code_simp
  have "?S \<noteq> []" by code_simp
  then have b: "hd ?S \<in> set ?S" by simp
  have c: "name (hd ?S) = js ''release-notes''" by code_simp
  from collected_name_nonempty[OF a b] a b c show ?thesis by blast
qed

section \<open>Properties of the classification\<close>

lemma firstMapping_find:
  "firstMapping ms f =
     (case find (\<lambda>m. list_ex (\<lambda>p. startsWith f p) (prefixes m)) ms of
        None \<Rightarrow> MISCELLANEOUS
      | Some m \<Rightarrow> \<lparr>category = category m, icon = icon m\<rparr>)"
  by (induction ms) auto



text \<open>
  C6 (as amended). For every record, \<open>categorizeWorkflow\<close> consults the ordered prefix
  rules only, on the last component of the file path with \<open>.yml\<close> and \<open>.yaml\<close> removed:
  the first rule one of whose prefixes starts that name gives the category, and with no
  such rule the category is the default one. The display name plays no part: there is no
  fallback to keywords in the name.
\<close>

theorem categorizeWorkflow_prefix_only:
  "categorizeWorkflow w =
     (case find (\<lambda>m. list_ex (\<lambda>p. startsWith
                   (replaceFirst (replaceFirst (lastPathPiece (filePath w)) (js ''.yml'') [])
                      (js ''.yaml'') []) p) (prefixes m))
             CATEGORY_MAPPINGS of
        None \<Rightarrow> MISCELLANEOUS
      | Some m \<Rightarrow> \<lparr>category = category m, icon = icon m\<rparr>)
   \<and> categorizeWorkflow (w\<lparr>name := n\<rparr>) = categorizeWorkflow w"
  by (simp add: categorizeWorkflow_def getCategoryByFilename_def firstMapping_find)

theorem categorizeWorkflow_witness:
  "category (categorizeWorkflow unitTests) = js ''Miscellaneous''
   \<and> categorizeWorkflow (unitTests\<lparr>name := js ''Deploy''\<rparr>) = categorizeWorkflow unitTests"
  using categorizeWorkflow_prefix_only[of unitTests "js ''Deploy''"]
  by (simp add: categorizeWorkflow_def) code_simp

text \<open>
  C6 as stated fails: no prefix rule matches the file \<open>ci.yml\<close> of the workflow named
  \<open>Unit Tests\<close>, whose lower-cased name holds the keyword \<open>test\<close>; the specified
  classification is Testing, the generator's is Miscellaneous.
\<close>

theorem classification_counterexample:
  "category (categorizeWorkflow unitTests) = js ''Miscellaneous''
   \<and> specifiedCategory unitTests = js ''Testing''
   \<and> category (categorizeWorkflow unitTests) \<noteq> specifiedCategory unitTests"
  by code_simp



section \<open>Properties of the splice and of the generation\<close>

lemma splice_found:
  assumes "indexOf doc BEGIN_AVAILABLE = int s" "indexOf doc END_FOLDER = int e"
  shows "splice doc W F = take s doc @ generatedBlock W F @ drop (e + length END_FOLDER) doc"
proof -
  have "substringFrom doc (int e + int (length END_FOLDER)) = drop (e + length END_FOLDER) doc"
    using substringFrom_drop[of doc "e + length END_FOLDER"] by simp
  with assms show ?thesis by (simp add: splice_def Let_def substring_take)
qed

lemma substring_neg: "substring s 0 (- 1) = []"
  by (simp add: substring_def Let_def)

lemma splice_no_begin:
  assumes "indexOf doc BEGIN_AVAILABLE = - 1"
  shows "splice doc W F = generatedBlock W F
           @ substringFrom doc (indexOf doc END_FOLDER + int (length END_FOLDER))"
  using assms by (simp add: splice_def Let_def substring_neg)

lemma workflowRow_returns: "\<exists>row. workflowRow w = Some row"
proof -
  obtain a where a: "wrapText (name w) 25 = Some a"
    using wrapText_returns[of 25 "name w"] by auto
  obtain b where b: "wrapText (description w) 50 = Some b"
    using wrapText_returns[of 50 "description w"] by auto
  show ?thesis by (simp add: workflowRow_def a b)
qed

lemma workflowRows_returns: "\<exists>out. workflowRows ws acc = Some out"
proof (induction ws arbitrary: acc)
  case Nil
  then show ?case by simp
next
  case (Cons w ws)
  obtain row where "workflowRow w = Some row" using workflowRow_returns by blast
  with Cons show ?case by simp
qed

lemma categoryTables_returns: "\<exists>out. categoryTables entries acc = Some out"
proof (induction entries arbitrary: acc)
  case Nil
  then show ?case by simp
next
  case (Cons entry entries)
  obtain rows where "workflowRows (snd (snd entry)) (acc @ tableHead (fst (snd entry)) (fst entry)) = Some rows"
    using workflowRows_returns by blast
  with Cons show ?case by simp
qed

lemma renderWorkflowsSection_returns: "\<exists>out. renderWorkflowsSection ws = Some out"
  using categoryTables_returns by (simp add: renderWorkflowsSection_def Let_def)

lemma generateDocumentation_writes:
  "\<exists>table. renderWorkflowsSection ws = Some table
     \<and> generateDocumentation cmp wfs ads ws files =
         Some (files(README \<mapsto>
           splice (case files README of None \<Rightarrow> [] | Some content \<Rightarrow> content) table
             (renderFolderStructureSection cmp wfs ads files)))"
proof -
  obtain table where "renderWorkflowsSection ws = Some table"
    using renderWorkflowsSection_returns by blast
  then show ?thesis by (simp add: generateDocumentation_def Let_def)
qed

lemma indexOf_eq_iff:
  "indexOf s pat = int k \<longleftrightarrow>
     (k \<le> length s \<and> prefix pat (drop k s) \<and> (\<forall>j<k. \<not> prefix pat (drop j s)))"
proof
  assume eq: "indexOf s pat = int k"
  then have ne: "indexOf s pat \<noteq> - 1" by simp
  from indexOf_found[OF ne] eq have p: "prefix pat (drop k s)" by simp
  from indexOf_bound[OF ne] eq have k: "k \<le> length s" by simp
  have "\<not> prefix pat (drop j s)" if "j < k" for j
  proof
    assume "prefix pat (drop j s)"
    moreover have "j \<le> length s" using that k by simp
    ultimately have "indexOf s pat \<le> int j" using indexOf_least by blast
    with eq that show False by simp
  qed
  with p k show "k \<le> length s \<and> prefix pat (drop k s) \<and> (\<forall>j<k. \<not> prefix pat (drop j s))"
    by blast
next
  assume a: "k \<le> length s \<and> prefix pat (drop k s) \<and> (\<forall>j<k. \<not> prefix pat (drop j s))"
  then have ne: "indexOf s pat \<noteq> - 1" and le: "indexOf s pat \<le> int k"
    using indexOf_least[of pat k s] by auto
  with indexOf_range[of s pat] have nn: "0 \<le> indexOf s pat" by auto
  from indexOf_found[OF ne] have "prefix pat (drop (nat (indexOf s pat)) s)" .
  with a have "\<not> nat (indexOf s pat) < k" by blast
  with le nn show "indexOf s pat = int k" by simp
qed

lemma prefix_drop_append:
  assumes "j + length pat \<le> length u"
  shows "prefix pat (drop j (u @ r)) \<longleftrightarrow> prefix pat (drop j u)"
proof -
  have "take (length pat) (drop j (u @ r)) = take (length pat) (drop j u)"
    using assms by simp
  then show ?thesis by (metis prefix_def append_eq_conv_conj append_take_drop_id)
qed

lemma indexOf_stable:
  assumes "indexOf (u @ r1) pat = int k" "k + length pat \<le> length u"
  shows "indexOf (u @ r2) pat = int k"
proof -
  from assms(1) have a: "prefix pat (drop k (u @ r1))" "\<forall>j<k. \<not> prefix pat (drop j (u @ r1))"
    by (simp_all add: indexOf_eq_iff)
  have "prefix pat (drop k (u @ r2))"
    using a(1) prefix_drop_append[OF assms(2), of r1] prefix_drop_append[OF assms(2), of r2]
    by blast
  moreover have "\<not> prefix pat (drop j (u @ r2))" if "j < k" for j
  proof -
    have jl: "j + length pat \<le> length u" using that assms(2) by simp
    from a(2) that have "\<not> prefix pat (drop j (u @ r1))" by blast
    then show ?thesis
      using prefix_drop_append[OF jl, of r1] prefix_drop_append[OF jl, of r2] by blast
  qed
  moreover have "k \<le> length (u @ r2)" using assms(2) by simp
  ultimately show ?thesis by (simp add: indexOf_eq_iff)
qed

lemma indexOf_starts: "indexOf (pat @ r) pat = 0"
proof (cases "pat @ r")
  case Nil
  then show ?thesis by simp
next
  case (Cons c cs)
  have "prefix pat (pat @ r)" by simp
  with Cons show ?thesis by (simp add: startsWith_def)
qed

lemma generatedBlock_shape:
  "\<exists>m. generatedBlock W F = BEGIN_AVAILABLE @ m @ END_FOLDER @ js ''\<newline>\<newline>''"
  by (simp add: generatedBlock_def)

lemma splice_shape:
  "\<exists>pre post. splice doc W F = pre @ generatedBlock W F @ post
      \<and> indexOf (pre @ generatedBlock W F @ post) BEGIN_AVAILABLE = int (length pre)"
proof (cases "indexOf doc BEGIN_AVAILABLE = - 1")
  case True
  then have "splice doc W F = [] @ generatedBlock W F
      @ substringFrom doc (indexOf doc END_FOLDER + int (length END_FOLDER))"
    by (simp add: splice_no_begin)
  moreover obtain m where "generatedBlock W F = BEGIN_AVAILABLE @ m @ END_FOLDER @ js ''\<newline>\<newline>''"
    using generatedBlock_shape by blast
  then have "indexOf ([] @ generatedBlock W F
      @ substringFrom doc (indexOf doc END_FOLDER + int (length END_FOLDER))) BEGIN_AVAILABLE
      = int (length ([]::jsstring))"
    by (simp add: indexOf_starts)
  ultimately show ?thesis by blast
next
  case False
  with indexOf_range[of doc BEGIN_AVAILABLE] obtain s where s: "indexOf doc BEGIN_AVAILABLE = int s"
    by (metis nonneg_int_cases)
  define post where "post = substringFrom doc (indexOf doc END_FOLDER + int (length END_FOLDER))"
  from s have sp: "splice doc W F = take s doc @ generatedBlock W F @ post"
    by (simp add: splice_def Let_def substring_take post_def)
  from s have pf: "prefix BEGIN_AVAILABLE (drop s doc)" and sl: "s \<le> length doc"
    by (simp_all add: indexOf_eq_iff)
  then obtain r where r: "drop s doc = BEGIN_AVAILABLE @ r" by (auto simp: prefix_def)
  have doc: "doc = (take s doc @ BEGIN_AVAILABLE) @ r"
    using r by (metis append_take_drop_id append.assoc)
  obtain m where m: "generatedBlock W F = BEGIN_AVAILABLE @ m @ END_FOLDER @ js ''\<newline>\<newline>''"
    using generatedBlock_shape by blast
  have "indexOf ((take s doc @ BEGIN_AVAILABLE) @ r) BEGIN_AVAILABLE = int s"
    using s doc by simp
  then have "indexOf ((take s doc @ BEGIN_AVAILABLE) @ (m @ END_FOLDER @ js ''\<newline>\<newline>'' @ post))
      BEGIN_AVAILABLE = int s"
    by (rule indexOf_stable) (use sl in simp)
  then have "indexOf (take s doc @ generatedBlock W F @ post) BEGIN_AVAILABLE = int (length (take s doc))"
    using m sl by simp
  with sp show ?thesis by blast
qed

lemma splice_grows:
  "length (splice (splice doc W F) W F) \<ge> length (splice doc W F) + 2"
proof -
  obtain pre post where d1: "splice doc W F = pre @ generatedBlock W F @ post"
    and s1: "indexOf (pre @ generatedBlock W F @ post) BEGIN_AVAILABLE = int (length pre)"
    using splice_shape by blast
  obtain m where m: "generatedBlock W F = BEGIN_AVAILABLE @ m @ END_FOLDER @ js ''\<newline>\<newline>''"
    using generatedBlock_shape by blast
  let ?d1 = "pre @ generatedBlock W F @ post"
  let ?k = "length pre + length BEGIN_AVAILABLE + length m"
  have "?d1 = (pre @ BEGIN_AVAILABLE @ m) @ END_FOLDER @ js ''\<newline>\<newline>'' @ post"
    using m by simp
  then have "prefix END_FOLDER (drop ?k ?d1)" by simp
  moreover have "?k \<le> length ?d1" using m by simp
  ultimately have e: "indexOf ?d1 END_FOLDER \<noteq> - 1" "indexOf ?d1 END_FOLDER \<le> int ?k"
    using indexOf_least[of END_FOLDER ?k ?d1] by auto
  with indexOf_range[of ?d1 END_FOLDER] obtain e1 where e1: "indexOf ?d1 END_FOLDER = int e1"
    by (metis nonneg_int_cases)
  with e have le: "e1 \<le> ?k" by simp
  have "splice ?d1 W F = take (length pre) ?d1 @ generatedBlock W F @ drop (e1 + length END_FOLDER) ?d1"
    using s1 e1 by (rule splice_found)
  then have "length (splice ?d1 W F)
      = length pre + length (generatedBlock W F) + (length ?d1 - (e1 + length END_FOLDER))"
    by simp
  moreover have "length ?d1 = length pre + length (generatedBlock W F) + length post" by simp
  moreover have "length (generatedBlock W F)
      = length BEGIN_AVAILABLE + length m + length END_FOLDER + 2"
    using m by (simp add: js_def)
  ultimately show ?thesis using le d1 by simp
qed

lemma render_nothing: "renderWorkflowsSection [] = Some EMPTY_TABLE"
  by (simp add: renderWorkflowsSection_def groupByCategory_def EMPTY_TABLE_def)

lemma tree_nothing: "renderFolderStructureSection cmp [] [] files = EMPTY_TREE"
  by (simp add: EMPTY_TREE_def renderFolderStructureSection_def generateFolderStructure_def)

lemma generate_nothing:
  "generateDocumentation cmp [] [] [] files =
     Some (files(README \<mapsto>
       splice (case files README of None \<Rightarrow> [] | Some content \<Rightarrow> content) EMPTY_TABLE EMPTY_TREE))"
  by (simp add: generateDocumentation_def render_nothing tree_nothing)

text \<open>
  C1 (as amended). For every README in which the begin marker of the table of workflows
  and the end marker of the folder structure are found, at \<open>s\<close> and \<open>e\<close>, and for every
  pair of rendered fragments, the new README is the content before \<open>s\<close>, then the
  generated block, then the content after the end marker at \<open>e\<close>: the head and the tail
  are kept code unit for code unit, and everything from the one marker to the other,
  content between the two regions included, is replaced.
\<close>

theorem splice_frame:
  assumes "indexOf doc BEGIN_AVAILABLE = int s" and "indexOf doc END_FOLDER = int e"
  shows "splice doc W F = take s doc @ generatedBlock W F @ drop (e + length END_FOLDER) doc
     \<and> prefix BEGIN_AVAILABLE (drop s doc) \<and> prefix END_FOLDER (drop e doc)"
  using assms splice_found[OF assms] by (simp add: indexOf_eq_iff)

theorem splice_frame_witness:
  "indexOf separatedReadme BEGIN_AVAILABLE = int 13
   \<and> indexOf separatedReadme END_FOLDER = int 193
   \<and> splice separatedReadme EMPTY_TABLE EMPTY_TREE
       = take 13 separatedReadme @ generatedBlock EMPTY_TABLE EMPTY_TREE
         @ drop (193 + length END_FOLDER) separatedReadme
   \<and> take 13 separatedReadme = js ''# Workflows\<newline>\<newline>''
   \<and> drop (193 + length END_FOLDER) separatedReadme = js ''\<newline>\<newline>## Quick Start\<newline>''"
proof -
  have a: "indexOf separatedReadme BEGIN_AVAILABLE = int 13" by code_simp
  have b: "indexOf separatedReadme END_FOLDER = int 193" by code_simp
  have c: "take 13 separatedReadme = js ''# Workflows\<newline>\<newline>''" by code_simp
  have d: "drop (193 + length END_FOLDER) separatedReadme = js ''\<newline>\<newline>## Quick Start\<newline>''"
    by code_simp
  from splice_frame[OF a b, of EMPTY_TABLE EMPTY_TREE]
  have "splice separatedReadme EMPTY_TABLE EMPTY_TREE
       = take 13 separatedReadme @ generatedBlock EMPTY_TABLE EMPTY_TREE
         @ drop (193 + length END_FOLDER) separatedReadme"
    by (rule conjunct1)
  with a b c d show ?thesis by (intro conjI)
qed

text \<open>
  C1 as stated fails: a heading written by hand between the end of the table region and
  the beginning of the folder region is in the README before the splice and nowhere in
  it after.
\<close>

theorem splice_between_counterexample:
  "separatedReadme =
     js ''# Workflows\<newline>\<newline>''
     @ BEGIN_AVAILABLE @ js ''\<newline>old table\<newline>'' @ END_AVAILABLE @ js ''\<newline>\<newline>''
     @ HAND_WRITTEN
     @ BEGIN_FOLDER @ js ''\<newline>old tree\<newline>'' @ END_FOLDER @ js ''\<newline>\<newline>''
     @ js ''## Quick Start\<newline>''
   \<and> includes_js separatedReadme HAND_WRITTEN
   \<and> \<not> includes_js (splice separatedReadme EMPTY_TABLE BARE_TREE) HAND_WRITTEN"
proof -
  have "includes_js separatedReadme HAND_WRITTEN
      \<and> \<not> includes_js (splice separatedReadme EMPTY_TABLE BARE_TREE) HAND_WRITTEN"
    by code_simp
  then show ?thesis by (simp add: separatedReadme_def)
qed

lemma splice_without_marker:
  assumes "indexOf doc BEGIN_AVAILABLE = - 1"
  shows "prefix BEGIN_AVAILABLE (splice doc W F) \<and> splice doc W F \<noteq> doc"
proof -
  obtain m where "generatedBlock W F = BEGIN_AVAILABLE @ m @ END_FOLDER @ js ''\<newline>\<newline>''"
    using generatedBlock_shape by blast
  with splice_no_begin[OF assms, of W F] have p: "prefix BEGIN_AVAILABLE (splice doc W F)"
    by simp
  have "splice doc W F \<noteq> doc"
  proof
    assume "splice doc W F = doc"
    with p have "prefix BEGIN_AVAILABLE (drop 0 doc)" by simp
    then have "indexOf doc BEGIN_AVAILABLE \<noteq> - 1"
      using indexOf_least[of BEGIN_AVAILABLE 0 doc] by simp
    with assms show False by simp
  qed
  with p show ?thesis by simp
qed

lemma missing_marker_always_written:
  assumes "files README = Some doc" "indexOf doc BEGIN_AVAILABLE = - 1"
  shows "\<exists>new. readmeAfter (generateDocumentation cmp wfs ads ws files) = Some new
     \<and> prefix BEGIN_AVAILABLE new \<and> new \<noteq> doc"
proof -
  obtain table where "generateDocumentation cmp wfs ads ws files =
      Some (files(README \<mapsto>
        splice (case files README of None \<Rightarrow> [] | Some content \<Rightarrow> content) table
          (renderFolderStructureSection cmp wfs ads files)))"
    using generateDocumentation_writes by blast
  then have "readmeAfter (generateDocumentation cmp wfs ads ws files)
      = Some (splice doc table (renderFolderStructureSection cmp wfs ads files))"
    using assms(1) by (simp add: readmeAfter_def)
  with splice_without_marker[OF assms(2)] show ?thesis by blast
qed

text \<open>
  C2. A README without the begin marker of the table of workflows (here one in the
  earlier layout, with headings and no delimiter comments): \<open>indexOf\<close> returns \<open>-1\<close>,
  which nothing tests, and the generator writes the generated block followed by the old
  content from its 48th code unit on, where C2 expects the README to be left as it was
  (\<open>missing_marker_always_written\<close>: every README without the marker is overwritten by a
  different text).
\<close>

theorem missing_marker_overwrites:
  "indexOf unmarkedReadme BEGIN_AVAILABLE = - 1
   \<and> readmeAfter (generateDocumentation anyOrder [] [] [] (onlyReadme unmarkedReadme))
       = Some (generatedBlock EMPTY_TABLE EMPTY_TREE @ drop 47 unmarkedReadme)
   \<and> generatedBlock EMPTY_TABLE EMPTY_TREE @ drop 47 unmarkedReadme \<noteq> unmarkedReadme"
proof -
  have a: "indexOf unmarkedReadme BEGIN_AVAILABLE = - 1" by code_simp
  have b: "indexOf unmarkedReadme END_FOLDER = - 1" by code_simp
  have "substringFrom unmarkedReadme (- 1 + int (length END_FOLDER)) = drop 47 unmarkedReadme"
    using substringFrom_drop[of unmarkedReadme 47] by (simp add: END_FOLDER_def js_def)
  with splice_no_begin[OF a, of EMPTY_TABLE EMPTY_TREE] b
  have s: "splice unmarkedReadme EMPTY_TABLE EMPTY_TREE
      = generatedBlock EMPTY_TABLE EMPTY_TREE @ drop 47 unmarkedReadme"
    by simp
  have c: "readmeAfter (generateDocumentation anyOrder [] [] [] (onlyReadme unmarkedReadme))
      = Some (generatedBlock EMPTY_TABLE EMPTY_TREE @ drop 47 unmarkedReadme)"
    by (simp add: readmeAfter_def generate_nothing onlyReadme_def s)
  have "hd (generatedBlock EMPTY_TABLE EMPTY_TREE @ drop 47 unmarkedReadme) = ascii CHR ''<''"
    by (simp add: generatedBlock_def BEGIN_AVAILABLE_def js_def)
  moreover have "hd unmarkedReadme = ascii CHR ''#''"
    by (simp add: unmarkedReadme_def js_def)
  ultimately have d: "generatedBlock EMPTY_TABLE EMPTY_TREE @ drop 47 unmarkedReadme \<noteq> unmarkedReadme"
    by (auto simp: ascii_def)
  from a c d show ?thesis by (intro conjI)
qed

text \<open>
  C9. Two runs in succession on the same inputs: the generated block ends with two line
  feeds after the end marker, and the content kept after the marker starts with those of
  the run before, so the README of the second run is longer than that of the first
  (by \<open>splice_grows\<close> this holds for every README and every pair of fragments), where C9
  expects the two to be identical.
\<close>

theorem regeneration_not_idempotent:
  "readmeAfter (generateDocumentation anyOrder [] [] [] (onlyReadme markedReadme))
     = Some (splice markedReadme EMPTY_TABLE EMPTY_TREE)
   \<and> readmeAfter (Option.bind (generateDocumentation anyOrder [] [] [] (onlyReadme markedReadme))
        (generateDocumentation anyOrder [] [] []))
     = Some (splice (splice markedReadme EMPTY_TABLE EMPTY_TREE) EMPTY_TABLE EMPTY_TREE)
   \<and> splice (splice markedReadme EMPTY_TABLE EMPTY_TREE) EMPTY_TABLE EMPTY_TREE
       \<noteq> splice markedReadme EMPTY_TABLE EMPTY_TREE
   \<and> length (splice markedReadme EMPTY_TABLE EMPTY_TREE) + 2
       \<le> length (splice (splice markedReadme EMPTY_TABLE EMPTY_TREE) EMPTY_TABLE EMPTY_TREE)"
proof -
  have a: "readmeAfter (generateDocumentation anyOrder [] [] [] (onlyReadme markedReadme))
      = Some (splice markedReadme EMPTY_TABLE EMPTY_TREE)"
    by (simp add: readmeAfter_def generate_nothing onlyReadme_def)
  have b: "readmeAfter (Option.bind (generateDocumentation anyOrder [] [] [] (onlyReadme markedReadme))
        (generateDocumentation anyOrder [] [] []))
      = Some (splice (splice markedReadme EMPTY_TABLE EMPTY_TREE) EMPTY_TABLE EMPTY_TREE)"
    by (simp add: readmeAfter_def generate_nothing onlyReadme_def)
  have c: "length (splice markedReadme EMPTY_TABLE EMPTY_TREE) + 2
      \<le> length (splice (splice markedReadme EMPTY_TABLE EMPTY_TREE) EMPTY_TABLE EMPTY_TREE)"
    by (rule splice_grows)
  then have d: "splice (splice markedReadme EMPTY_TABLE EMPTY_TREE) EMPTY_TABLE EMPTY_TREE
      \<noteq> splice markedReadme EMPTY_TABLE EMPTY_TREE"
    by auto
  from a b d c show ?thesis by (intro conjI)
qed

end
